theory Spec2Isabelle
  imports Main
begin

section \<open>Python values used by phockup\<close>

text \<open>
  A shallow embedding of \<^verbatim>\<open>src/phockup.py\<close>, under these conventions.
  \<^item> A Python \<^verbatim>\<open>str\<close> is a \<^typ>\<open>string\<close>; a character stands for a code point below 256,
    so the character classes of \<^verbatim>\<open>re\<close> and \<^verbatim>\<open>str\<close> are the ones Python has on that range
    (\<^verbatim>\<open>\d\<close> is \<^verbatim>\<open>0-9\<close> there).
  \<^item> Paths are POSIX paths (\<^verbatim>\<open>os.path.sep\<close> is \<^verbatim>\<open>/\<close>), and two path strings name the same
    file only when they are equal.
  \<^item> An exception is a value of \<open>py_error\<close> on the left of a sum; a function that cannot
    raise returns its value directly.
  \<^item> The file system holds regular files only: directories are there when needed, and
    \<^verbatim>\<open>os.makedirs\<close> succeeds.
\<close>

datatype py_error =
  KeyError | ValueError | TypeError | OverflowError | FileNotFoundError | SameFileError

type_synonym path = string

abbreviation (input) newline :: char where
  "newline \<equiv> CHR 0x0A"

definition is_digit :: "char \<Rightarrow> bool" where
  "is_digit c = (c \<in> set ''0123456789'')"

definition digit_val :: "char \<Rightarrow> nat" where
  "digit_val c = of_char c - 48"

definition nat_of_digits :: "string \<Rightarrow> nat" where
  "nat_of_digits s = foldl (\<lambda>a c. 10 * a + digit_val c) 0 s"

text \<open>\<^verbatim>\<open>str.isspace\<close>, which is also \<^verbatim>\<open>\s\<close> of a \<^verbatim>\<open>str\<close> pattern.\<close>

definition is_space :: "char \<Rightarrow> bool" where
  "is_space c = (c \<in> set [CHR 0x09, CHR 0x0A, CHR 0x0B, CHR 0x0C, CHR 0x0D,
     CHR 0x1C, CHR 0x1D, CHR 0x1E, CHR 0x1F, CHR 0x20, CHR 0x85, CHR 0xA0])"

text \<open>\<^verbatim>\<open>s.strip()\<close>\<close>

definition strip :: "string \<Rightarrow> string" where
  "strip s = rev (dropWhile is_space (rev (dropWhile is_space s)))"

text \<open>\<^verbatim>\<open>s.split(d)\<close> for a separator of one character.\<close>

fun split_on :: "char \<Rightarrow> string \<Rightarrow> string list" where
  "split_on d [] = [[]]"
| "split_on d (c # cs) =
     (if c = d then [] # split_on d cs
      else (case split_on d cs of [] \<Rightarrow> [[c]] | x # xs \<Rightarrow> (c # x) # xs))"

text \<open>\<^verbatim>\<open>s.split("\\n")[0]\<close>: the text before the first backslash followed by \<^verbatim>\<open>n\<close>.\<close>

fun before_backslash_n :: "string \<Rightarrow> string" where
  "before_backslash_n [] = []"
| "before_backslash_n [c] = [c]"
| "before_backslash_n (c # e # cs) =
     (if c = CHR 0x5C \<and> e = CHR ''n'' then [] else c # before_backslash_n (e # cs))"

text \<open>\<^verbatim>\<open>sep.join(xs)\<close>\<close>

fun join :: "string \<Rightarrow> string list \<Rightarrow> string" where
  "join sep [] = []"
| "join sep [x] = x"
| "join sep (x # y # ys) = x @ sep @ join sep (y # ys)"

definition endswith :: "string \<Rightarrow> string \<Rightarrow> bool" where
  "endswith s suf = (length suf \<le> length s \<and> drop (length s - length suf) s = suf)"

definition startswith :: "string \<Rightarrow> string \<Rightarrow> bool" where
  "startswith s pre = (take (length pre) s = pre)"

text \<open>
  \<^verbatim>\<open>str.lower\<close> on code points below 256: the ASCII capitals and the Latin-1 capitals
  \<^verbatim>\<open>0xC0..0xDE\<close> without the multiplication sign \<^verbatim>\<open>0xD7\<close> move up by 32.
\<close>

definition lower_char :: "char \<Rightarrow> char" where
  "lower_char c =
     (let n = (of_char c :: nat)
      in if (65 \<le> n \<and> n \<le> 90) \<or> (192 \<le> n \<and> n \<le> 222 \<and> n \<noteq> 215)
         then char_of (n + 32) else c)"

definition lower :: "string \<Rightarrow> string" where
  "lower s = map lower_char s"

text \<open>\<^verbatim>\<open>'%d' % n\<close> for \<open>n \<ge> 0\<close>, and \<^verbatim>\<open>'%0wd' % n\<close>.\<close>

definition digit_char :: "nat \<Rightarrow> char" where
  "digit_char n = ''0123456789'' ! (n mod 10)"

fun dec :: "nat \<Rightarrow> string" where
  "dec n = (if n < 10 then [digit_char n] else dec (n div 10) @ [digit_char n])"

declare dec.simps [simp del]

definition zero_pad :: "nat \<Rightarrow> int \<Rightarrow> string" where
  "zero_pad w n =
     (if n < 0 then CHR ''-'' # replicate (w - 1 - length (dec (nat (- n)))) CHR ''0'' @ dec (nat (- n))
      else replicate (w - length (dec (nat n))) CHR ''0'' @ dec (nat n))"

text \<open>
  \<^verbatim>\<open>int(s)\<close> for a string: surrounding white space, an optional sign, then digits with
  single underscores between them. \<open>None\<close> is \<^verbatim>\<open>ValueError\<close>.
\<close>

fun digits_acc :: "nat \<Rightarrow> string \<Rightarrow> nat option" where
  "digits_acc a [] = Some a"
| "digits_acc a (c # cs) =
     (if is_digit c then digits_acc (10 * a + digit_val c) cs
      else if c = CHR ''_'' then
        (case cs of [] \<Rightarrow> None
         | d # ds \<Rightarrow> if is_digit d then digits_acc (10 * a + digit_val d) ds else None)
      else None)"

definition py_digits :: "string \<Rightarrow> nat option" where
  "py_digits s = (case s of [] \<Rightarrow> None
     | c # cs \<Rightarrow> if is_digit c then digits_acc (digit_val c) cs else None)"

definition py_int :: "string \<Rightarrow> int option" where
  "py_int s = (case strip s of [] \<Rightarrow> None
     | c # cs \<Rightarrow>
         if c = CHR ''-'' then map_option (\<lambda>n. - int n) (py_digits cs)
         else if c = CHR ''+'' then map_option int (py_digits cs)
         else map_option int (py_digits (c # cs)))"

section \<open>Paths\<close>

text \<open>\<^verbatim>\<open>os.path.basename\<close>: what follows the last separator.\<close>

definition basename :: "path \<Rightarrow> string" where
  "basename p = rev (takeWhile (\<lambda>c. c \<noteq> CHR ''/'') (rev p))"

text \<open>
  \<^verbatim>\<open>os.path.splitext\<close>: the extension starts at the last dot of the base name, provided a
  character other than a dot comes before it in the base name.
\<close>

definition splitext :: "path \<Rightarrow> string \<times> string" where
  "splitext p =
     (if CHR ''.'' \<in> set (dropWhile (\<lambda>c. c = CHR ''.'') (basename p))
      then (let ext = CHR ''.'' # rev (takeWhile (\<lambda>c. c \<noteq> CHR ''.'') (rev p))
            in (take (length p - length ext) p, ext))
      else (p, []))"

text \<open>\<^verbatim>\<open>os.path.join(root, filename)\<close>\<close>

definition path_join :: "path \<Rightarrow> string \<Rightarrow> path" where
  "path_join root filename =
     (if startswith filename ''/'' then filename
      else if root = [] \<or> endswith root ''/'' then root @ filename
      else root @ ''/'' @ filename)"

section \<open>Calendar values\<close>

record datetime =
  year :: int
  month :: int
  day :: int
  hour :: int
  minute :: int
  second :: int

definition is_leap :: "int \<Rightarrow> bool" where
  "is_leap y = (y mod 4 = 0 \<and> (y mod 400 = 0 \<or> y mod 100 \<noteq> 0))"

definition days_in_month :: "int \<Rightarrow> int \<Rightarrow> int" where
  "days_in_month y m =
     (if m = 2 then (if is_leap y then 29 else 28)
      else if m \<in> {4, 6, 9, 11} then 30 else 31)"

text \<open>The constructor \<^verbatim>\<open>datetime(y, m, d, H, M, S)\<close>; \<open>None\<close> is its \<^verbatim>\<open>ValueError\<close>.\<close>

definition mk_datetime :: "int \<Rightarrow> int \<Rightarrow> int \<Rightarrow> int \<Rightarrow> int \<Rightarrow> int \<Rightarrow> datetime option" where
  "mk_datetime y m d H M S =
     (if 1 \<le> y \<and> y \<le> 9999 \<and> 1 \<le> m \<and> m \<le> 12 \<and> 1 \<le> d \<and> d \<le> days_in_month y m
         \<and> 0 \<le> H \<and> H \<le> 23 \<and> 0 \<le> M \<and> M \<le> 59 \<and> 0 \<le> S \<and> S \<le> 59
      then Some \<lparr>year = y, month = m, day = d, hour = H, minute = M, second = S\<rparr>
      else None)"

section \<open>Metadata Mapper: \<^verbatim>\<open>exif\<close>\<close>

text \<open>
  The dictionary built by \<^verbatim>\<open>exif\<close> is an association list with the newest row first, read
  with \<^const>\<open>map_of\<close>, so a later row overrides an earlier one with the same key.
  It is empty exactly when the dictionary is.
\<close>

type_synonym exif_data = "(string \<times> string) list"

definition exif_row :: "string \<Rightarrow> string \<times> string" where
  "exif_row row =
     (case split_on CHR '':'' row of
        [] \<Rightarrow> ([], [])
      | k # vs \<Rightarrow> (strip k, strip (join '':'' vs)))"

definition exif_parse :: "string \<Rightarrow> exif_data" where
  "exif_parse out =
     foldl (\<lambda>d row. exif_row row # d) []
       (split_on newline (before_backslash_n (strip out)))"

text \<open>
  What lies outside the program: \<open>exiftool\<close> is the decoded output of the external tool
  for a path (\<open>None\<close> when the call or the decoding fails), \<open>sha256\<close> the digest of a
  file's content, \<open>strftime\<close> the rendering of a directory template (\<open>None\<close> when it
  raises).
\<close>

record env =
  exiftool :: "path \<Rightarrow> string option"
  sha256 :: "string \<Rightarrow> string"
  strftime :: "string \<Rightarrow> datetime \<Rightarrow> string option"

definition exif :: "env \<Rightarrow> path \<Rightarrow> exif_data option" where
  "exif e file = map_option exif_parse (exiftool e file)"

section \<open>Date Resolver: \<^verbatim>\<open>get_date\<close>\<close>

subsection \<open>\<^verbatim>\<open>datetime.strptime\<close> for the two formats\<close>

text \<open>
  \<^verbatim>\<open>strptime\<close> compiles the format into a regular expression, takes the first match in
  backtracking order and fails when the match does not reach the end of the string.
  A matcher returns its matches in that order, each with the rest of the string.
\<close>

type_synonym 'a rx = "string \<Rightarrow> ('a \<times> string) list"

definition in_range :: "char \<Rightarrow> char \<Rightarrow> char \<Rightarrow> bool" where
  "in_range lo hi c = ((of_char lo :: nat) \<le> of_char c \<and> (of_char c :: nat) \<le> of_char hi)"

definition rx_two :: "(char \<Rightarrow> bool) \<Rightarrow> (char \<Rightarrow> bool) \<Rightarrow> int rx" where
  "rx_two P Q s = (case s of
       a # b # r \<Rightarrow> if P a \<and> Q b then [(int (10 * digit_val a + digit_val b), r)] else []
     | _ \<Rightarrow> [])"

definition rx_one :: "(char \<Rightarrow> bool) \<Rightarrow> int rx" where
  "rx_one P s = (case s of a # r \<Rightarrow> if P a then [(int (digit_val a), r)] else [] | [] \<Rightarrow> [])"

definition rx_lit :: "char \<Rightarrow> unit rx" where
  "rx_lit c s = (case s of a # r \<Rightarrow> if a = c then [((), r)] else [] | [] \<Rightarrow> [])"

text \<open>\<^verbatim>\<open>\s+\<close>, longest first.\<close>

fun rx_spaces :: "unit rx" where
  "rx_spaces [] = []"
| "rx_spaces (c # cs) = (if is_space c then rx_spaces cs @ [((), cs)] else [])"

text \<open>\<^verbatim>\<open>(?P<Y>\d\d\d\d)\<close>\<close>

definition rx_Y :: "int rx" where
  "rx_Y s = (if 4 \<le> length s \<and> list_all is_digit (take 4 s)
     then [(int (nat_of_digits (take 4 s)), drop 4 s)] else [])"

text \<open>\<^verbatim>\<open>(?P<m>1[0-2]|0[1-9]|[1-9])\<close>\<close>

definition rx_m :: "int rx" where
  "rx_m s = rx_two (\<lambda>c. c = CHR ''1'') (in_range CHR ''0'' CHR ''2'') s
          @ rx_two (\<lambda>c. c = CHR ''0'') (in_range CHR ''1'' CHR ''9'') s
          @ rx_one (in_range CHR ''1'' CHR ''9'') s"

text \<open>\<^verbatim>\<open>(?P<d>3[0-1]|[1-2]\d|0[1-9]|[1-9]| [1-9])\<close>\<close>

definition rx_d :: "int rx" where
  "rx_d s = rx_two (\<lambda>c. c = CHR ''3'') (in_range CHR ''0'' CHR ''1'') s
          @ rx_two (in_range CHR ''1'' CHR ''2'') is_digit s
          @ rx_two (\<lambda>c. c = CHR ''0'') (in_range CHR ''1'' CHR ''9'') s
          @ rx_one (in_range CHR ''1'' CHR ''9'') s
          @ (case s of a # r \<Rightarrow> if a = CHR '' '' then rx_one (in_range CHR ''1'' CHR ''9'') r else []
             | [] \<Rightarrow> [])"

text \<open>\<^verbatim>\<open>(?P<H>2[0-3]|[0-1]\d|\d)\<close>\<close>

definition rx_H :: "int rx" where
  "rx_H s = rx_two (\<lambda>c. c = CHR ''2'') (in_range CHR ''0'' CHR ''3'') s
          @ rx_two (in_range CHR ''0'' CHR ''1'') is_digit s
          @ rx_one is_digit s"

text \<open>\<^verbatim>\<open>(?P<M>[0-5]\d|\d)\<close>\<close>

definition rx_M :: "int rx" where
  "rx_M s = rx_two (in_range CHR ''0'' CHR ''5'') is_digit s @ rx_one is_digit s"

text \<open>\<^verbatim>\<open>(?P<S>6[0-1]|[0-5]\d|\d)\<close>\<close>

definition rx_S :: "int rx" where
  "rx_S s = rx_two (\<lambda>c. c = CHR ''6'') (in_range CHR ''0'' CHR ''1'') s
          @ rx_two (in_range CHR ''0'' CHR ''5'') is_digit s
          @ rx_one is_digit s"

text \<open>
  \<^verbatim>\<open>strptime(s, "%Y<sep>%m<sep>%d %H:%M:%S")\<close> for the date separator \<open>sep\<close>;
  \<open>None\<close> is \<^verbatim>\<open>ValueError\<close>: no match, unconverted data, or no such date or time.
\<close>

definition strptime_matches :: "char \<Rightarrow> (int \<times> int \<times> int \<times> int \<times> int \<times> int) rx" where
  "strptime_matches sep s =
     [((Y, m, d, H, M, S), r11).
        (Y, r1) \<leftarrow> rx_Y s, (u1, r2) \<leftarrow> rx_lit sep r1,
        (m, r3) \<leftarrow> rx_m r2, (u2, r4) \<leftarrow> rx_lit sep r3,
        (d, r5) \<leftarrow> rx_d r4, (u3, r6) \<leftarrow> rx_spaces r5,
        (H, r7) \<leftarrow> rx_H r6, (u4, r8) \<leftarrow> rx_lit CHR '':'' r7,
        (M, r9) \<leftarrow> rx_M r8, (u5, r10) \<leftarrow> rx_lit CHR '':'' r9,
        (S, r11) \<leftarrow> rx_S r10]"

definition strptime_ymd_hms :: "char \<Rightarrow> string \<Rightarrow> datetime option" where
  "strptime_ymd_hms sep s =
     (case strptime_matches sep s of
        [] \<Rightarrow> None
      | ((Y, m, d, H, M, S), rest) # _ \<Rightarrow>
          if rest \<noteq> [] then None else mk_datetime Y m d H M S)"

subsection \<open>The time-zone pattern \<^verbatim>\<open>(.*)([+-]\d{2}:\d{2})\<close>\<close>

text \<open>\<^verbatim>\<open>[+-]\d{2}:\d{2}\<close> at the head of the string.\<close>

definition tz_at :: "string \<Rightarrow> bool" where
  "tz_at s = (case s of
       a # b # c # d # e # f # _ \<Rightarrow>
         a \<in> set ''+-'' \<and> is_digit b \<and> is_digit c \<and> d = CHR '':'' \<and> is_digit e \<and> is_digit f
     | _ \<Rightarrow> False)"

text \<open>
  A match of the whole pattern anchored at the head: the greedy \<^verbatim>\<open>.*\<close> takes as many
  characters other than a newline as it can and gives back one at a time. The result is
  group 1 and what follows the match.
\<close>

fun tz_match :: "string \<Rightarrow> (string \<times> string) option" where
  "tz_match [] = None"
| "tz_match (c # cs) =
     (case (if c \<noteq> newline then tz_match cs else None) of
        Some (g, r) \<Rightarrow> Some (c # g, r)
      | None \<Rightarrow> if tz_at (c # cs) then Some ([], drop 6 (c # cs)) else None)"

text \<open>\<^verbatim>\<open>re.search(search, date) is not None\<close>\<close>

fun tz_search :: "string \<Rightarrow> bool" where
  "tz_search [] = False"
| "tz_search (c # cs) = (tz_match (c # cs) \<noteq> None \<or> tz_search cs)"

lemma tz_match_length: "tz_match s = Some (g, r) \<Longrightarrow> length r < length s"
proof (induction s arbitrary: g r)
  case Nil
  then show ?case by simp
next
  case (Cons c cs)
  show ?case
  proof (cases "if c \<noteq> newline then tz_match cs else None")
    case None
    with Cons.prems show ?thesis by (auto split: if_splits)
  next
    case (Some gr)
    obtain g' r' where gr: "gr = (g', r')" by (cases gr)
    from Some gr have "tz_match cs = Some (g', r')" by (auto split: if_splits)
    then have "length r' < length cs" by (rule Cons.IH)
    moreover from Cons.prems Some gr have "r = r'" by auto
    ultimately show ?thesis by simp
  qed
qed

text \<open>
  \<^verbatim>\<open>re.sub(search, r'\1', date)\<close>: each match, found from left to right, is replaced by
  its group 1; a character where no match starts is kept.
\<close>

function tz_sub :: "string \<Rightarrow> string" where
  "tz_sub [] = []"
| "tz_sub (c # cs) =
     (case tz_match (c # cs) of
        Some (g, r) \<Rightarrow> g @ tz_sub r
      | None \<Rightarrow> c # tz_sub cs)"
  by pat_completeness auto
termination
proof (relation "measure length")
  show "wf (measure length)" by simp
next
  fix c :: char and cs x2 x y
  assume "tz_match (c # cs) = Some x2" and "(x, y) = x2"
  then have "tz_match (c # cs) = Some (x, y)" by simp
  then have "length y < length (c # cs)" by (rule tz_match_length)
  then show "(y, c # cs) \<in> measure length" by simp
next
  fix c :: char and cs :: string
  show "(cs, c # cs) \<in> measure length" by simp
qed

subsection \<open>The default file-name pattern\<close>

text \<open>
  What a compiled pattern gives \<^verbatim>\<open>get_date\<close>: \<^verbatim>\<open>regex.search(name)\<close>, \<open>None\<close> for no
  match, else the match's \<^verbatim>\<open>groupdict()\<close>, in which a group that took no part is \<open>None\<close>.
\<close>

type_synonym groupdict = "(string \<times> string option) list"

type_synonym regex = "string \<Rightarrow> groupdict option"

text \<open>\<^verbatim>\<open>(?P<hour>\d{2})(?P<minute>\d{2})(?P<second>\d{2})\<close> at the head.\<close>

definition hms_at :: "string \<Rightarrow> (string \<times> string \<times> string) option" where
  "hms_at s = (if 6 \<le> length s \<and> list_all is_digit (take 6 s)
     then Some (take 2 s, take 2 (drop 2 s), take 2 (drop 4 s)) else None)"

text \<open>
  \<^verbatim>\<open>[_-](?P<year>\d{4})(?P<month>\d{2})(?P<day>\d{2})[_-]?\<close> and the time, at the head: the
  optional separator is taken when it is there, and given back when the time does not
  follow it.
\<close>

definition default_tail :: "string \<Rightarrow> groupdict option" where
  "default_tail s = (case s of
       [] \<Rightarrow> None
     | c # r \<Rightarrow>
         if c \<in> set ''_-'' \<and> 8 \<le> length r \<and> list_all is_digit (take 8 r) then
           (let r' = drop 8 r;
                with_sep = (case r' of [] \<Rightarrow> None
                            | x # xs \<Rightarrow> if x \<in> set ''_-'' then hms_at xs else None)
            in case (case with_sep of Some t \<Rightarrow> Some t | None \<Rightarrow> hms_at r') of
                 None \<Rightarrow> None
               | Some (H, M, S) \<Rightarrow>
                   Some [(''year'', Some (take 4 r)), (''month'', Some (take 2 (drop 4 r))),
                         (''day'', Some (take 2 (drop 6 r))), (''hour'', Some H),
                         (''minute'', Some M), (''second'', Some S)])
         else None)"

text \<open>The whole pattern anchored at the head: \<^verbatim>\<open>.*\<close> is greedy and stops at a newline.\<close>

fun default_match :: "string \<Rightarrow> groupdict option" where
  "default_match [] = default_tail []"
| "default_match (c # cs) =
     (case (if c \<noteq> newline then default_match cs else None) of
        Some g \<Rightarrow> Some g
      | None \<Rightarrow> default_tail (c # cs))"

text \<open>\<^verbatim>\<open>default_regex.search\<close>: the first start position with a match.\<close>

fun default_regex :: regex where
  "default_regex [] = default_match []"
| "default_regex (c # cs) =
     (case default_match (c # cs) of Some g \<Rightarrow> Some g | None \<Rightarrow> default_regex cs)"

subsection \<open>\<^verbatim>\<open>get_date\<close>\<close>

text \<open>The dictionary \<^verbatim>\<open>{'date': ..., 'subseconds': ...}\<close>.\<close>

record resolved =
  date :: "datetime option"
  subseconds :: string

definition date_keys :: "bool \<Rightarrow> string list" where
  "date_keys use_modification_date =
     [''Create Date'', ''Date/Time Original'', ''Media created'']
     @ (if use_modification_date then [''File Modification Date/Time''] else [])"

text \<open>The loop over \<open>keys\<close>: the value of the first key that is in the dictionary.\<close>

fun first_present :: "exif_data \<Rightarrow> string list \<Rightarrow> string option" where
  "first_present d [] = None"
| "first_present d (k # ks) =
     (case map_of d k of Some v \<Rightarrow> Some v | None \<Rightarrow> first_present d ks)"

text \<open>
  \<^verbatim>\<open>dict([a, int(x)] for a, x in match_dir.items())\<close>: the first group that does not
  convert raises, \<^verbatim>\<open>TypeError\<close> for \<open>None\<close> and \<^verbatim>\<open>ValueError\<close> for a string.
\<close>

fun convert_groups :: "groupdict \<Rightarrow> py_error + (string \<times> int) list" where
  "convert_groups [] = Inr []"
| "convert_groups ((a, x) # gs) =
     (case x of
        None \<Rightarrow> Inl TypeError
      | Some s \<Rightarrow>
          (case py_int s of
             None \<Rightarrow> Inl ValueError
           | Some i \<Rightarrow>
               (case convert_groups gs of
                  Inl e \<Rightarrow> Inl e
                | Inr md \<Rightarrow> Inr ((a, i) # md))))"

text \<open>An argument of \<^verbatim>\<open>datetime(...)\<close> must fit a C \<^verbatim>\<open>int\<close>, else \<^verbatim>\<open>OverflowError\<close>.\<close>

definition fits_c_int :: "int \<Rightarrow> bool" where
  "fits_c_int i = (- 2147483648 \<le> i \<and> i \<le> 2147483647)"

text \<open>
  The branch of \<^verbatim>\<open>get_date\<close> for a date string found in the metadata (lines 173 to 196).
\<close>

definition date_from_exif :: "string \<Rightarrow> resolved" where
  "date_from_exif datestr0 =
     (let datestr = split_on CHR ''.'' datestr0;
          date0 = (case datestr of [] \<Rightarrow> [] | x # _ \<Rightarrow> x);
          subseconds = (case datestr of _ # y # _ \<Rightarrow> y | _ \<Rightarrow> []);
          date1 = (if tz_search date0 then tz_sub date0 else date0);
          parsed_date_time =
            (case strptime_ymd_hms CHR '':'' date1 of
               Some dt \<Rightarrow> Some dt
             | None \<Rightarrow> strptime_ymd_hms CHR ''-'' date1)
      in \<lparr>date = parsed_date_time, subseconds = subseconds\<rparr>)"

text \<open>
  The branch for the file name (lines 198 to 220). The function returns nothing, that is
  \<open>None\<close>, when the pattern does not match or no date comes out of the groups.
\<close>

definition date_from_name :: "path \<Rightarrow> regex option \<Rightarrow> py_error + resolved option" where
  "date_from_name file user_regex =
     (let regex = (case user_regex of Some r \<Rightarrow> r | None \<Rightarrow> default_regex)
      in case regex (basename file) of
           None \<Rightarrow> Inr None
         | Some match_dir \<Rightarrow>
             (case convert_groups match_dir of
                Inl ValueError \<Rightarrow> Inr None
              | Inl e \<Rightarrow> Inl e
              | Inr md \<Rightarrow>
                  (case (map_of md ''year'', map_of md ''month'', map_of md ''day'',
                         map_of md ''hour'', map_of md ''minute'', map_of md ''second'') of
                     (Some y, Some m, Some d, Some H, Some M, Some S) \<Rightarrow>
                       if \<not> list_all fits_c_int [y, m, d, H, M, S] then Inl OverflowError
                       else (case mk_datetime y m d H M S of
                               None \<Rightarrow> Inr None
                             | Some dt \<Rightarrow> Inr (Some \<lparr>date = Some dt, subseconds = []\<rparr>))
                   | _ \<Rightarrow> Inr None)))"

definition get_date :: "path \<Rightarrow> exif_data \<Rightarrow> regex option \<Rightarrow> bool \<Rightarrow> py_error + resolved option" where
  "get_date file exif_data user_regex use_modification_date =
     (case first_present exif_data (date_keys use_modification_date) of
        Some (c # cs) \<Rightarrow> Inr (Some (date_from_exif (c # cs)))
      | _ \<Rightarrow> date_from_name file user_regex)"

section \<open>Destination Planner and Name Synthesizer\<close>

text \<open>
  \<^verbatim>\<open>get_output_dir\<close>. The argument is what \<^verbatim>\<open>get_date\<close> returned (\<open>None\<close> also stands
  for the \<^verbatim>\<open>False\<close> that \<^verbatim>\<open>handle_file\<close> passes): whenever the date cannot be read out of
  it, or the template raises, the bare \<^verbatim>\<open>except\<close> selects \<^verbatim>\<open>unknown\<close>. Only regular files
  are modelled, so the creation of the directory leaves no trace here.
\<close>

definition get_output_dir :: "env \<Rightarrow> resolved option \<Rightarrow> path \<Rightarrow> string \<Rightarrow> path" where
  "get_output_dir e d outputdir dir_format =
     (let outputdir' = (if endswith outputdir ''/'' then butlast outputdir else outputdir);
          rendered =
            (case d of
               None \<Rightarrow> None
             | Some r \<Rightarrow>
                 (case date r of
                    None \<Rightarrow> None
                  | Some dt \<Rightarrow> strftime e dir_format (dt\<lparr>hour := 0, minute := 0, second := 0\<rparr>)))
      in join ''/'' [outputdir', (case rendered of Some s \<Rightarrow> s | None \<Rightarrow> ''unknown'')])"

text \<open>\<^verbatim>\<open>get_file_name\<close>: the \<^verbatim>\<open>except\<close> branch is taken when there is no date to read.\<close>

definition get_file_name :: "path \<Rightarrow> resolved option \<Rightarrow> string" where
  "get_file_name file d =
     (case d of
        None \<Rightarrow> basename file
      | Some r \<Rightarrow>
          (case date r of
             None \<Rightarrow> basename file
           | Some dt \<Rightarrow>
               concat ([zero_pad 4 (year dt), zero_pad 2 (month dt), zero_pad 2 (day dt), ''-'',
                        zero_pad 2 (hour dt), zero_pad 2 (minute dt), zero_pad 2 (second dt)]
                       @ (if subseconds r \<noteq> [] then [subseconds r] else []))
               @ snd (splitext file)))"

section \<open>Media kind: \<^verbatim>\<open>is_image_or_video\<close>\<close>

text \<open>
  \<^verbatim>\<open>^(image/.+|video/.+|application/vnd.adobe.photoshop)$\<close> with \<^verbatim>\<open>match\<close>: a dot of the
  pattern is any character but a newline, and \<^verbatim>\<open>$\<close> also holds before a newline that
  ends the string.
\<close>

definition rx_dots :: "string \<Rightarrow> string \<Rightarrow> bool" where
  "rx_dots pat s = list_all2 (\<lambda>p c. if p = CHR ''.'' then c \<noteq> newline else c = p) pat s"

definition mime_body :: "string \<Rightarrow> bool" where
  "mime_body b =
     ((startswith b ''image/'' \<and> drop 6 b \<noteq> [] \<and> newline \<notin> set (drop 6 b))
      \<or> (startswith b ''video/'' \<and> drop 6 b \<noteq> [] \<and> newline \<notin> set (drop 6 b))
      \<or> rx_dots ''application/vnd.adobe.photoshop'' b)"

definition mime_match :: "string \<Rightarrow> bool" where
  "mime_match s = (mime_body s \<or> (s \<noteq> [] \<and> last s = newline \<and> mime_body (butlast s)))"

text \<open>
  An empty dictionary and \<open>None\<close> are false in \<^verbatim>\<open>exif_data and ...\<close>; otherwise
  \<^verbatim>\<open>exif_data['MIME Type']\<close> is read, and raises when the key is missing.
\<close>

definition is_image_or_video :: "exif_data option \<Rightarrow> py_error + bool" where
  "is_image_or_video exif_data =
     (case exif_data of
        None \<Rightarrow> Inr False
      | Some d \<Rightarrow>
          if d = [] then Inr False
          else (case map_of d ''MIME Type'' of
                  None \<Rightarrow> Inl KeyError
                | Some v \<Rightarrow> Inr (mime_match v)))"

section \<open>Files\<close>

text \<open>
  The regular files of the file system: a path has a content or there is no file.
\<close>

type_synonym fs = "path \<Rightarrow> string option"

datatype status = Copied | Moved | Duplicate | Error | Other

definition isfile :: "fs \<Rightarrow> path \<Rightarrow> bool" where
  "isfile f p = (f p \<noteq> None)"

text \<open>\<^verbatim>\<open>sha256_checksum\<close>: opening a file that is not there raises.\<close>

definition sha256_checksum :: "env \<Rightarrow> fs \<Rightarrow> path \<Rightarrow> py_error + string" where
  "sha256_checksum e f filename =
     (case f filename of None \<Rightarrow> Inl FileNotFoundError | Some c \<Rightarrow> Inr (sha256 e c))"

text \<open>\<^verbatim>\<open>shutil.copy2\<close> and \<^verbatim>\<open>shutil.move\<close> between file paths.\<close>

definition copy2 :: "fs \<Rightarrow> path \<Rightarrow> path \<Rightarrow> py_error + fs" where
  "copy2 f src dst =
     (case f src of
        None \<Rightarrow> Inl FileNotFoundError
      | Some c \<Rightarrow> if src = dst then Inl SameFileError else Inr (f(dst \<mapsto> c)))"

definition move :: "fs \<Rightarrow> path \<Rightarrow> path \<Rightarrow> py_error + fs" where
  "move f src dst =
     (case f src of
        None \<Rightarrow> Inl FileNotFoundError
      | Some c \<Rightarrow> Inr ((f(src := None))(dst \<mapsto> c)))"

definition transfer :: "bool \<Rightarrow> fs \<Rightarrow> path \<Rightarrow> path \<Rightarrow> py_error + fs" where
  "transfer move_files f src dst = (if move_files then move f src dst else copy2 f src dst)"

section \<open>Sidecar Associator: \<^verbatim>\<open>handle_file_xmp\<close>\<close>

definition xmp_plan :: "fs \<Rightarrow> path \<Rightarrow> string \<Rightarrow> nat \<Rightarrow> (path \<times> string) option" where
  "xmp_plan f source_file photo_name suffix =
     (let xmp_original_with_ext = source_file @ ''.xmp'';
          xmp_original_without_ext = fst (splitext source_file) @ ''.xmp'';
          suffix' = (if suffix > 1 then ''-'' @ dec suffix else [])
      in if isfile f xmp_original_with_ext
           then Some (xmp_original_with_ext, photo_name @ suffix' @ ''.xmp'')
         else if isfile f xmp_original_without_ext
           then Some (xmp_original_without_ext, fst (splitext photo_name) @ suffix' @ ''.xmp'')
         else None)"

definition handle_file_xmp ::
  "fs \<Rightarrow> path \<Rightarrow> string \<Rightarrow> nat \<Rightarrow> path \<Rightarrow> bool \<Rightarrow> py_error + fs" where
  "handle_file_xmp f source_file photo_name suffix exif_output_dir move_files =
     (case xmp_plan f source_file photo_name suffix of
        None \<Rightarrow> Inr f
      | Some (xmp_original, xmp_target) \<Rightarrow>
          transfer move_files f xmp_original (join ''/'' [exif_output_dir, xmp_target]))"

section \<open>File placement: \<^verbatim>\<open>handle_file\<close> and \<^verbatim>\<open>handle_file2\<close>\<close>

text \<open>
  Lines 287 to 297 of \<^verbatim>\<open>handle_file\<close>: the output directory and the target file name.
\<close>

definition target_plan ::
  "env \<Rightarrow> path \<Rightarrow> path \<Rightarrow> string \<Rightarrow> regex option \<Rightarrow> py_error + (path \<times> string)" where
  "target_plan e source_file outputdir dir_format date_regex =
     (let exif_data = exif e source_file
      in case (if exif_data \<noteq> None \<and> exif_data \<noteq> Some [] then is_image_or_video exif_data
               else Inr False) of
           Inl err \<Rightarrow> Inl err
         | Inr True \<Rightarrow>
             (case get_date source_file (case exif_data of Some d \<Rightarrow> d | None \<Rightarrow> []) date_regex False of
                Inl err \<Rightarrow> Inl err
              | Inr d \<Rightarrow>
                  Inr (get_output_dir e d outputdir dir_format,
                       lower (get_file_name source_file d)))
         | Inr False \<Rightarrow>
             Inr (get_output_dir e None outputdir dir_format, basename source_file))"

text \<open>The name tried for a suffix above 1: \<^verbatim>\<open>"%s-%d%s" % (root, suffix, ext)\<close>.\<close>

definition suffixed :: "path \<Rightarrow> nat \<Rightarrow> path" where
  "suffixed target_file_path suffix =
     (let target_split = splitext target_file_path
      in fst target_split @ ''-'' @ dec suffix @ snd target_split)"

text \<open>
  The \<^verbatim>\<open>while True\<close> loop of \<^verbatim>\<open>handle_file\<close>, with its variables \<open>suffix\<close> and
  \<open>target_file\<close>. The value \<open>None\<close> is a loop that does not end. A result carries the
  file system the call leaves behind, also when it raises.
\<close>

partial_function (option) place_loop ::
  "env \<Rightarrow> bool \<Rightarrow> path \<Rightarrow> path \<Rightarrow> string \<Rightarrow> path \<Rightarrow> nat \<Rightarrow> path \<Rightarrow> fs
     \<Rightarrow> ((py_error + status) \<times> fs) option" where
  "place_loop e move_files source_file target_file_path target_file_name output_dir
       suffix target_file f =
     (if isfile f target_file then
        (case sha256_checksum e f source_file of
           Inl err \<Rightarrow> Some (Inl err, f)
         | Inr h1 \<Rightarrow>
             (case sha256_checksum e f target_file of
                Inl err \<Rightarrow> Some (Inl err, f)
              | Inr h2 \<Rightarrow>
                  if h1 = h2 then Some (Inr Duplicate, f)
                  else place_loop e move_files source_file target_file_path target_file_name
                         output_dir (suffix + 1) (suffixed target_file_path (suffix + 1)) f))
      else
        (case transfer move_files f source_file target_file of
           Inl err \<Rightarrow> Some (Inl err, f)
         | Inr f' \<Rightarrow>
             (case handle_file_xmp f' source_file target_file_name suffix output_dir move_files of
                Inl err \<Rightarrow> Some (Inl err, f')
              | Inr f'' \<Rightarrow> Some (Inr (if move_files then Moved else Copied), f''))))"

declare place_loop.simps [code]

definition handle_file ::
  "env \<Rightarrow> path \<Rightarrow> path \<Rightarrow> string \<Rightarrow> bool \<Rightarrow> regex option \<Rightarrow> fs
     \<Rightarrow> ((py_error + status) \<times> fs) option" where
  "handle_file e source_file outputdir dir_format move_files date_regex f =
     (if endswith source_file ''.xmp'' then Some (Inr Other, f)
      else
        (case target_plan e source_file outputdir dir_format date_regex of
           Inl err \<Rightarrow> Some (Inl err, f)
         | Inr (output_dir, target_file_name) \<Rightarrow>
             (let target_file_path = join ''/'' [output_dir, target_file_name]
              in place_loop e move_files source_file target_file_path target_file_name
                   output_dir 1 target_file_path f)))"

text \<open>
  \<^verbatim>\<open>handle_file2\<close>. Here \<^verbatim>\<open>is_image_or_video\<close> is called on whatever \<^verbatim>\<open>exif\<close> returned, and
  \<^verbatim>\<open>get_date\<close> only on a dictionary for which it answered \<^verbatim>\<open>True\<close>.
\<close>

definition target_plan2 ::
  "env \<Rightarrow> path \<Rightarrow> path \<Rightarrow> string \<Rightarrow> regex option \<Rightarrow> string \<Rightarrow> py_error + path" where
  "target_plan2 e source_file outputdir dir_format date_regex source_sha256 =
     (let exif_data = exif e source_file;
          target_file_name = basename source_file
      in case is_image_or_video exif_data of
           Inl err \<Rightarrow> Inl err
         | Inr True \<Rightarrow>
             (case get_date source_file (case exif_data of Some d \<Rightarrow> d | None \<Rightarrow> []) date_regex True of
                Inl err \<Rightarrow> Inl err
              | Inr d \<Rightarrow>
                  Inr (join ''/'' [get_output_dir e d outputdir dir_format,
                                   source_sha256 @ snd (splitext target_file_name)]))
         | Inr False \<Rightarrow>
             Inr (join ''/'' [get_output_dir e None outputdir dir_format, target_file_name]))"

definition handle_file2 ::
  "env \<Rightarrow> path \<Rightarrow> path \<Rightarrow> string \<Rightarrow> bool \<Rightarrow> regex option \<Rightarrow> fs
     \<Rightarrow> (py_error + status) \<times> fs" where
  "handle_file2 e source_file outputdir dir_format move_files date_regex f =
     (case sha256_checksum e f source_file of
        Inl err \<Rightarrow> (Inl err, f)
      | Inr source_sha256 \<Rightarrow>
          (case target_plan2 e source_file outputdir dir_format date_regex source_sha256 of
             Inl err \<Rightarrow> (Inl err, f)
           | Inr target_file \<Rightarrow>
               if isfile f target_file then (Inr Duplicate, f)
               else (case transfer move_files f source_file target_file of
                       Inl err \<Rightarrow> (Inl err, f)
                     | Inr f' \<Rightarrow> (Inr (if move_files then Moved else Copied), f'))))"

section \<open>The loop of \<^verbatim>\<open>main\<close> over the files\<close>

record run_state =
  count :: "status \<Rightarrow> nat"
  error_list :: "path list"
  files :: fs

definition ignored_files :: "string list" where
  "ignored_files = [''.DS_Store'', ''Thumbs.db'']"

text \<open>
  The body of the inner \<^verbatim>\<open>for\<close> loop for one \<open>(root, filename)\<close> of the walk: an exception
  of the handler is counted as \<^verbatim>\<open>error\<close> and the path is recorded.
\<close>

definition main_step ::
  "env \<Rightarrow> path \<Rightarrow> string \<Rightarrow> bool \<Rightarrow> regex option \<Rightarrow> bool \<Rightarrow> path \<times> string \<Rightarrow> run_state
     \<Rightarrow> run_state option" where
  "main_step e outputdir dir_format move_files date_regex sha_rename rf st =
     (let source_file = path_join (fst rf) (snd rf)
      in if snd rf \<in> set ignored_files then Some st
         else
           (case (if \<not> sha_rename
                  then handle_file e source_file outputdir dir_format move_files date_regex (files st)
                  else Some (handle_file2 e source_file outputdir dir_format move_files date_regex
                               (files st))) of
              None \<Rightarrow> None
            | Some (Inr s, f') \<Rightarrow>
                Some (st\<lparr>count := (count st)(s := count st s + 1), files := f'\<rparr>)
            | Some (Inl err, f') \<Rightarrow>
                Some (st\<lparr>count := (count st)(Error := count st Error + 1),
                         error_list := error_list st @ [source_file], files := f'\<rparr>)))"

fun main_loop ::
  "env \<Rightarrow> path \<Rightarrow> string \<Rightarrow> bool \<Rightarrow> regex option \<Rightarrow> bool \<Rightarrow> (path \<times> string) list \<Rightarrow> run_state
     \<Rightarrow> run_state option" where
  "main_loop e outputdir dir_format move_files date_regex sha_rename [] st = Some st"
| "main_loop e outputdir dir_format move_files date_regex sha_rename (rf # rfs) st =
     (case main_step e outputdir dir_format move_files date_regex sha_rename rf st of
        None \<Rightarrow> None
      | Some st' \<Rightarrow> main_loop e outputdir dir_format move_files date_regex sha_rename rfs st')"

section \<open>An example environment\<close>

text \<open>
  A tool that reports JPEG images without any date, one JPEG image with a creation date,
  a text file, a file without a MIME type, and fails for every other path; the digest of
  a content is the content itself, and the only directory template is the default
  \<^verbatim>\<open>%Y/%m/%d\<close>.
\<close>

definition ex_tool :: "path \<Rightarrow> string option" where
  "ex_tool p =
     (if p = ''in/IMG.JPG'' then Some ''File Name : IMG.JPG
MIME Type : image/jpeg''
      else if p = ''in/a.bin'' then Some ''File Name : a.bin''
      else if p = ''in2/notes.txt'' then Some ''MIME Type : text/plain''
      else if p = ''in/b.JPG'' then Some ''MIME Type : image/jpeg
Create Date : 2021:05:04 10:11:12''
      else if p \<in> set [''in/IMG_20160915_123456.JPG'', ''in/photo.jpg'', ''in2/photo.jpg'',
                          ''in3/photo.jpg'']
        then Some ''MIME Type : image/jpeg''
      else None)"

definition ex_strftime :: "string \<Rightarrow> datetime \<Rightarrow> string option" where
  "ex_strftime fmt dt =
     (if fmt = ''%Y/%m/%d''
      then Some (zero_pad 4 (year dt) @ ''/'' @ zero_pad 2 (month dt) @ ''/'' @ zero_pad 2 (day dt))
      else None)"

definition ex_env :: env where
  "ex_env = \<lparr>exiftool = ex_tool, sha256 = (\<lambda>c. c), strftime = ex_strftime\<rparr>"

section \<open>Notions used to state the claims\<close>



text \<open>
  The path \<^verbatim>\<open>handle_file\<close> tries in round \<open>k\<close> of its loop: the target path itself in
  round 1, then the suffixed names.
\<close>

definition candidate :: "path \<Rightarrow> nat \<Rightarrow> path" where
  "candidate target_file_path k =
     (if k \<le> 1 then target_file_path else suffixed target_file_path k)"






section \<open>Facts about the Metadata Mapper\<close>

lemma split_on_nonempty: "split_on d s \<noteq> []"
  by (induction s) (auto split: list.splits)

lemma foldl_cons_nonempty: "foldl (\<lambda>d row. g row # d) acc (r # rows) \<noteq> []"
proof (induction rows arbitrary: acc r)
  case Nil
  show ?case by simp
next
  case (Cons a rows)
  have "foldl (\<lambda>d row. g row # d) acc (r # a # rows)
          = foldl (\<lambda>d row. g row # d) (g r # acc) (a # rows)"
    by simp
  with Cons.IH [of "g r # acc" a] show ?case by simp
qed

lemma exif_parse_nonempty: "exif_parse out \<noteq> []"
proof -
  obtain r rows where "split_on newline (before_backslash_n (strip out)) = r # rows"
    using split_on_nonempty [of newline "before_backslash_n (strip out)"]
    by (cases "split_on newline (before_backslash_n (strip out))") auto
  then show ?thesis
    unfolding exif_parse_def using foldl_cons_nonempty [of exif_row "[]" r rows] by simp
qed

lemma exif_nonempty: "exif e file = Some d \<Longrightarrow> d \<noteq> []"
  by (auto simp: exif_def exif_parse_nonempty)

section \<open>Facts about integer conversion\<close>










section \<open>Facts about the default file-name pattern\<close>










lemma default_tail_head: "c \<notin> set ''_-'' \<Longrightarrow> default_tail (c # r) = None"
  by (simp add: default_tail_def)

lemma default_match_no_sep:
  assumes "\<forall>c\<in>set a. c \<notin> set ''_-''" and "default_match b = None"
  shows "default_match (a @ b) = None"
  using assms(1)
proof (induction a)
  case Nil
  with assms(2) show ?case by simp
next
  case (Cons c a)
  then have "default_match (a @ b) = None" and "default_tail (c # a @ b) = None"
    by (simp_all add: default_tail_head)
  then show ?case by (cases "c = newline") simp_all
qed

lemma default_match_prefix:
  assumes "newline \<notin> set a" and "default_match b = Some g"
  shows "default_match (a @ b) = Some g"
  using assms(1) by (induction a) (auto simp: assms(2))

lemma digit_not_sep: "is_digit c \<Longrightarrow> c \<notin> set ''_-''"
  by (auto simp: is_digit_def)

lemma digits_no_sep:
  assumes "list_all is_digit s"
  shows "\<forall>c\<in>set s. c \<notin> set ''_-''"
proof
  fix c assume "c \<in> set s"
  with assms have "is_digit c" by (simp add: list_all_iff)
  then show "c \<notin> set ''_-''" by (rule digit_not_sep)
qed

lemma default_tail_short:
  assumes "\<not> (8 \<le> length r \<and> list_all is_digit (take 8 r))"
  shows "default_tail (x # r) = None"
  using assms unfolding default_tail_def by (simp only: list.case if_False simp_thms)

lemma hms_at_append:
  assumes "length hms = 6" and "list_all is_digit hms"
  shows "hms_at (hms @ rest) = Some (take 2 hms, take 2 (drop 2 hms), take 2 (drop 4 hms))"
  using assms by (simp add: hms_at_def)

lemma default_tail_hit:
  assumes sep: "sep \<in> set ''_-''"
    and ymd: "length ymd = 8" "list_all is_digit ymd"
    and sep2: "sep2 = [] \<or> (\<exists>x. sep2 = [x] \<and> x \<in> set ''_-'')"
    and hms: "length hms = 6" "list_all is_digit hms"
  shows "default_tail (sep # ymd @ sep2 @ hms @ rest)
       = Some [(''year'', Some (take 4 ymd)), (''month'', Some (take 2 (drop 4 ymd))),
               (''day'', Some (take 2 (drop 6 ymd))), (''hour'', Some (take 2 hms)),
               (''minute'', Some (take 2 (drop 2 hms))), (''second'', Some (take 2 (drop 4 hms)))]"
proof -
  let ?r = "ymd @ sep2 @ hms @ rest"
  have c: "sep \<in> set ''_-'' \<and> 8 \<le> length ?r \<and> list_all is_digit (take 8 ?r)"
    using sep ymd by simp
  have d: "drop 8 ?r = sep2 @ hms @ rest" using ymd(1) by simp
  have t: "take 4 ?r = take 4 ymd" "take 2 (drop 4 ?r) = take 2 (drop 4 ymd)"
    "take 2 (drop 6 ?r) = take 2 (drop 6 ymd)"
    using ymd(1) by simp_all
  note hm = hms_at_append [OF hms, of rest]
  have inner: "(case (case sep2 @ hms @ rest of [] \<Rightarrow> None
                      | x # xs \<Rightarrow> if x \<in> set ''_-'' then hms_at xs else None) of
                  Some t \<Rightarrow> Some t | None \<Rightarrow> hms_at (sep2 @ hms @ rest))
       = Some (take 2 hms, take 2 (drop 2 hms), take 2 (drop 4 hms))"
  proof (cases "sep2 = []")
    case True
    from hms(1) obtain h hs where h: "hms = h # hs" by (cases hms) auto
    with hms(2) have "is_digit h" by simp
    then have "h \<notin> set ''_-''" by (auto simp: is_digit_def)
    then have "(case hms @ rest of [] \<Rightarrow> None
                      | x # xs \<Rightarrow> if x \<in> set ''_-'' then hms_at xs else None) = None"
      unfolding h by simp
    with True hm show ?thesis by simp
  next
    case False
    with sep2 obtain x where x: "sep2 = [x]" "x \<in> set ''_-''" by blast
    have "(case sep2 @ hms @ rest of [] \<Rightarrow> None
                      | x # xs \<Rightarrow> if x \<in> set ''_-'' then hms_at xs else None)
          = hms_at (hms @ rest)"
      unfolding x(1) using x(2) by simp
    with hm show ?thesis by simp
  qed
  show ?thesis
    unfolding default_tail_def list.case Let_def d t inner
    by (simp only: c if_True option.case prod.case simp_thms)
qed


text \<open>
  A base name in which the pattern occurs, after text without a newline and before text
  that has no separator and does not start with a digit, matches with the groups of
  that occurrence.
\<close>

lemma default_regex_canonical:
  assumes pre: "newline \<notin> set pre"
    and sep: "sep \<in> set ''_-''"
    and ymd: "length ymd = 8" "list_all is_digit ymd"
    and sep2: "sep2 = [] \<or> (\<exists>x. sep2 = [x] \<and> x \<in> set ''_-'')"
    and hms: "length hms = 6" "list_all is_digit hms"
    and rest: "\<forall>c\<in>set rest. c \<notin> set ''_-''" "rest = [] \<or> \<not> is_digit (hd rest)"
  shows "default_regex (pre @ sep # ymd @ sep2 @ hms @ rest)
       = Some [(''year'', Some (take 4 ymd)), (''month'', Some (take 2 (drop 4 ymd))),
               (''day'', Some (take 2 (drop 6 ymd))), (''hour'', Some (take 2 hms)),
               (''minute'', Some (take 2 (drop 2 hms))), (''second'', Some (take 2 (drop 4 hms)))]"
    (is "_ = Some ?G")
proof -
  have "default_match [] = None" by (simp add: default_tail_def)
  with rest(1) have "default_match (rest @ []) = None" by (rule default_match_no_sep)
  then have r0: "default_match rest = None" by simp
  have r1: "default_match (hms @ rest) = None"
    using digits_no_sep [OF hms(2)] r0 by (rule default_match_no_sep)
  have not8: "\<not> (8 \<le> length (hms @ rest) \<and> list_all is_digit (take 8 (hms @ rest)))"
  proof (cases rest)
    case Nil
    with hms(1) show ?thesis by simp
  next
    case (Cons c cs)
    with rest(2) have "\<not> is_digit c" by simp
    moreover from hms(1) Cons have "take 8 (hms @ rest) = hms @ take 2 (c # cs)" by simp
    moreover have "take 2 (c # cs) = c # take 1 cs" by (simp add: numeral_2_eq_2)
    ultimately show ?thesis by simp
  qed
  have r2: "default_match (sep2 @ hms @ rest) = None"
  proof (cases "sep2 = []")
    case True
    with r1 show ?thesis by simp
  next
    case False
    with sep2 obtain x where x: "sep2 = [x]" by blast
    have "default_tail (x # hms @ rest) = None"
      using not8 by (rule default_tail_short)
    with r1 show ?thesis unfolding x by (cases "x = newline") simp_all
  qed
  have r3: "default_match (ymd @ sep2 @ hms @ rest) = None"
    using digits_no_sep [OF ymd(2)] r2 by (rule default_match_no_sep)
  have tail: "default_tail (sep # ymd @ sep2 @ hms @ rest) = Some ?G"
    using sep ymd sep2 hms by (rule default_tail_hit)
  from sep have "sep \<noteq> newline" by auto
  with r3 tail have "default_match (sep # ymd @ sep2 @ hms @ rest) = Some ?G" by simp
  with pre have m: "default_match (pre @ sep # ymd @ sep2 @ hms @ rest) = Some ?G"
    by (rule default_match_prefix)
  show ?thesis
  proof (cases "pre @ sep # ymd @ sep2 @ hms @ rest")
    case Nil
    then show ?thesis by simp
  next
    case (Cons c cs)
    with m show ?thesis by simp
  qed
qed

section \<open>Facts about paths and candidate names\<close>

lemma splitext_append: "splitext p = (a, b) \<Longrightarrow> a @ b = p"
proof (cases "CHR ''.'' \<in> set (dropWhile (\<lambda>c. c = CHR ''.'') (basename p))")
  case False
  assume "splitext p = (a, b)"
  with False show ?thesis by (simp add: splitext_def)
next
  case True
  assume ab: "splitext p = (a, b)"
  from True have "CHR ''.'' \<in> set (basename p)" by (meson set_dropWhileD)
  then have "CHR ''.'' \<in> set p"
    unfolding basename_def by (metis set_rev set_takeWhileD)
  then obtain pre post where p: "p = pre @ CHR ''.'' # post" and post: "CHR ''.'' \<notin> set post"
    by (meson split_list_last)
  have "takeWhile (\<lambda>c. c \<noteq> CHR ''.'') (rev p) = rev post"
    unfolding p using post by (auto simp: takeWhile_tail)
  with True ab have "b = CHR ''.'' # post" and "a = take (length p - length (CHR ''.'' # post)) p"
    by (auto simp: splitext_def Let_def)
  then show ?thesis unfolding p by simp
qed

lemma digit_char_inj: "digit_char n = digit_char m \<Longrightarrow> n mod 10 = m mod 10"
proof -
  assume a: "digit_char n = digit_char m"
  have d: "distinct ''0123456789''" by simp
  have "n mod 10 < length ''0123456789''" "m mod 10 < length ''0123456789''" by simp_all
  with a d show ?thesis unfolding digit_char_def by (simp only: nth_eq_iff_index_eq)
qed

lemma dec_nonempty: "dec n \<noteq> []"
  by (subst dec.simps) simp

lemma dec_length_ge2: "10 \<le> n \<Longrightarrow> 2 \<le> length (dec n)"
proof -
  assume "10 \<le> n"
  then have "dec n = dec (n div 10) @ [digit_char n]" by (subst dec.simps) simp
  moreover have "1 \<le> length (dec (n div 10))"
    using dec_nonempty [of "n div 10"] by (cases "dec (n div 10)") auto
  ultimately show ?thesis by simp
qed

lemma dec_inj: "dec n = dec m \<Longrightarrow> n = m"
proof (induction n arbitrary: m rule: dec.induct)
  case (1 n)
  show ?case
  proof (cases "n < 10")
    case True
    then have dn: "dec n = [digit_char n]" by (subst dec.simps) simp
    have "m < 10"
    proof (rule ccontr)
      assume "\<not> m < 10"
      then have "2 \<le> length (dec m)" by (simp add: dec_length_ge2)
      moreover from "1.prems" dn have "dec m = [digit_char n]" by simp
      then have "length (dec m) = 1" by simp
      ultimately show False by simp
    qed
    then have "dec m = [digit_char m]" by (subst dec.simps) simp
    with "1.prems" dn have "digit_char n = digit_char m" by simp
    then have "n mod 10 = m mod 10" by (rule digit_char_inj)
    with True \<open>m < 10\<close> show ?thesis by simp
  next
    case False
    then have dn: "dec n = dec (n div 10) @ [digit_char n]" by (subst dec.simps) simp
    have "\<not> m < 10"
    proof
      assume "m < 10"
      then have "dec m = [digit_char m]" by (subst dec.simps) simp
      with "1.prems" have "length (dec n) = 1" by simp
      moreover from False have "2 \<le> length (dec n)" by (simp add: dec_length_ge2)
      ultimately show False by simp
    qed
    then have dm: "dec m = dec (m div 10) @ [digit_char m]" by (subst dec.simps) simp
    from "1.prems" dn dm have "dec (n div 10) = dec (m div 10)" and "digit_char n = digit_char m"
      by simp_all
    then have "n div 10 = m div 10" and "n mod 10 = m mod 10"
      using "1.IH" [OF False] digit_char_inj by blast+
    then show ?thesis by (metis div_mult_mod_eq)
  qed
qed

lemma candidate_inj:
  assumes "1 \<le> j" and "1 \<le> k" and "candidate tfp j = candidate tfp k"
  shows "j = k"
proof -
  obtain a b where ab: "splitext tfp = (a, b)" by (cases "splitext tfp")
  then have p: "tfp = a @ b" by (simp add: splitext_append)
  have suff: "\<And>n. suffixed tfp n = a @ ''-'' @ dec n @ b"
    by (simp add: suffixed_def ab)
  have ne: "\<And>n. suffixed tfp n \<noteq> tfp"
  proof
    fix n assume "suffixed tfp n = tfp"
    then have "length (a @ ''-'' @ dec n @ b) = length (a @ b)" using suff p by metis
    then show False by simp
  qed
  show ?thesis
  proof (cases "j = 1")
    case True
    show ?thesis
    proof (cases "k = 1")
      case True
      with \<open>j = 1\<close> show ?thesis by simp
    next
      case False
      with assms True ne [of k] show ?thesis by (simp add: candidate_def)
    qed
  next
    case False
    show ?thesis
    proof (cases "k = 1")
      case True
      with assms False ne [of j] show ?thesis by (simp add: candidate_def)
    next
      case k: False
      with assms False have "suffixed tfp j = suffixed tfp k" by (simp add: candidate_def)
      then have "dec j = dec k" by (simp add: suff)
      then show ?thesis by (rule dec_inj)
    qed
  qed
qed

section \<open>Facts about the placement loop\<close>

lemma place_loop_duplicate:
  assumes "f target_file = Some c'" and "f source_file = Some c" and "sha256 e c = sha256 e c'"
  shows "place_loop e move_files source_file tfp name dir k target_file f = Some (Inr Duplicate, f)"
  using assms by (subst place_loop.simps) (simp add: isfile_def sha256_checksum_def)

lemma place_loop_next:
  assumes "f target_file = Some c'" and "f source_file = Some c" and "sha256 e c \<noteq> sha256 e c'"
  shows "place_loop e move_files source_file tfp name dir k target_file f
       = place_loop e move_files source_file tfp name dir (k + 1) (suffixed tfp (k + 1)) f"
  using assms by (subst place_loop.simps) (simp add: isfile_def sha256_checksum_def)

lemma place_loop_free:
  assumes "f target_file = None"
  shows "place_loop e move_files source_file tfp name dir k target_file f
       = (case transfer move_files f source_file target_file of
           Inl err \<Rightarrow> Some (Inl err, f)
         | Inr f' \<Rightarrow>
             (case handle_file_xmp f' source_file name k dir move_files of
                Inl err \<Rightarrow> Some (Inl err, f')
              | Inr f'' \<Rightarrow> Some (Inr (if move_files then Moved else Copied), f'')))"
  using assms by (subst place_loop.simps) (simp add: isfile_def)

lemma candidate_Suc: "1 \<le> k \<Longrightarrow> suffixed tfp (k + 1) = candidate tfp (k + 1)"
  by (simp add: candidate_def)

text \<open>The loop reaches the first candidate that holds the digest of the source.\<close>

lemma place_loop_finds_duplicate:
  assumes src: "f source_file = Some c"
    and occ: "\<forall>i. j \<le> i \<and> i \<le> k \<longrightarrow> isfile f (candidate tfp i)"
    and k: "f (candidate tfp k) = Some c'" "sha256 e c' = sha256 e c"
    and j: "1 \<le> j" "j \<le> k"
  shows "place_loop e move_files source_file tfp name dir j (candidate tfp j) f
       = Some (Inr Duplicate, f)"
  using occ j
proof (induction "k - j" arbitrary: j)
  case 0
  then have "j = k" by simp
  with src k show ?case by (simp add: place_loop_duplicate)
next
  case (Suc n)
  from Suc.prems have "isfile f (candidate tfp j)" by simp
  then obtain cj where cj: "f (candidate tfp j) = Some cj" by (auto simp: isfile_def)
  show ?case
  proof (cases "sha256 e c = sha256 e cj")
    case True
    with src cj show ?thesis by (simp add: place_loop_duplicate)
  next
    case False
    from Suc have jk: "j + 1 \<le> k" "n = k - (j + 1)" by simp_all
    have "place_loop e move_files source_file tfp name dir j (candidate tfp j) f
        = place_loop e move_files source_file tfp name dir (j + 1) (candidate tfp (j + 1)) f"
      using place_loop_next [OF cj src False] candidate_Suc [OF Suc.prems(2)] by simp
    also have "\<dots> = Some (Inr Duplicate, f)"
      using Suc.hyps(1) [OF jk(2)] Suc.prems jk by simp
    finally show ?thesis .
  qed
qed

lemma endswith_append: "endswith (s @ suf) suf"
  by (simp add: endswith_def)

lemma endswith_join_xmp: "endswith (join ''/'' [dir, x @ ''.xmp'']) ''.xmp''"
proof -
  have "join ''/'' [dir, x @ ''.xmp''] = (dir @ ''/'' @ x) @ ''.xmp''" by simp
  then show ?thesis by (simp only: endswith_append)
qed

lemma transfer_source:
  assumes "transfer move_files f src dst = Inr f1" and "f dst = None"
  shows "f1 src = (if move_files then None else f src)"
proof -
  from assms(1) obtain c where c: "f src = Some c"
    by (cases "f src") (auto simp: transfer_def move_def copy2_def split: if_splits)
  with assms(2) have "src \<noteq> dst" by auto
  with assms(1) c show ?thesis
    by (auto simp: transfer_def move_def copy2_def split: if_splits)
qed

lemma handle_file_xmp_source:
  assumes "handle_file_xmp f1 src name k dir move_files = Inr f2"
    and "\<not> endswith src ''.xmp''"
  shows "f2 src = f1 src"
proof (cases "xmp_plan f1 src name k")
  case None
  with assms(1) show ?thesis by (simp add: handle_file_xmp_def)
next
  case (Some a)
  obtain xo xt where a: "a = (xo, xt)" by (cases a)
  from Some a have "xo = src @ ''.xmp'' \<or> xo = fst (splitext src) @ ''.xmp''"
    and "\<exists>x. xt = x @ ''.xmp''"
    by (auto simp: xmp_plan_def Let_def split: if_splits)
  then have "endswith xo ''.xmp''" and "endswith (join ''/'' [dir, xt]) ''.xmp''"
    using endswith_append endswith_join_xmp by auto
  with assms(2) have ne: "xo \<noteq> src" "join ''/'' [dir, xt] \<noteq> src" by auto
  from assms(1) Some a have "transfer move_files f1 xo (join ''/'' [dir, xt]) = Inr f2"
    by (simp add: handle_file_xmp_def)
  with ne show ?thesis
    by (auto simp: transfer_def move_def copy2_def split: if_splits option.splits)
qed

lemma place_loop_source:
  assumes run: "place_loop e move_files src tfp name dir k tf f = Some y"
    and nx: "\<not> endswith src ''.xmp''"
  shows "(\<not> move_files \<longrightarrow> snd y src = f src)
       \<and> (move_files \<longrightarrow> fst y = Inr Moved \<longrightarrow> snd y src = None)"
proof -
  let ?P = "\<lambda>(e :: env) move_files src (tfp :: path) (name :: string) (dir :: path)
              (k :: nat) (tf :: path) (f :: fs) (y :: (py_error + status) \<times> fs).
      \<not> endswith src ''.xmp'' \<longrightarrow>
           (\<not> move_files \<longrightarrow> snd y src = f src)
         \<and> (move_files \<longrightarrow> fst y = Inr Moved \<longrightarrow> snd y src = None)"
  have "?P e move_files src tfp name dir k tf f y"
  proof (rule place_loop.raw_induct [where P = ?P, OF _ run], intro impI)
    fix loop :: "env \<Rightarrow> bool \<Rightarrow> path \<Rightarrow> path \<Rightarrow> string \<Rightarrow> path \<Rightarrow> nat \<Rightarrow> path \<Rightarrow> fs
        \<Rightarrow> ((py_error + status) \<times> fs) option"
    fix e move_files src tfp name dir k tf f y
    assume IH: "\<And>e move_files src tfp name dir k tf f y.
        loop e move_files src tfp name dir k tf f = Some y \<Longrightarrow>
        \<not> endswith src ''.xmp'' \<longrightarrow>
           (\<not> move_files \<longrightarrow> snd y src = f src)
         \<and> (move_files \<longrightarrow> fst y = Inr Moved \<longrightarrow> snd y src = None)"
    assume body: "(if isfile f tf then
        (case sha256_checksum e f src of
           Inl err \<Rightarrow> Some (Inl err, f)
         | Inr h1 \<Rightarrow>
             (case sha256_checksum e f tf of
                Inl err \<Rightarrow> Some (Inl err, f)
              | Inr h2 \<Rightarrow>
                  if h1 = h2 then Some (Inr Duplicate, f)
                  else loop e move_files src tfp name dir (k + 1) (suffixed tfp (k + 1)) f))
      else
        (case transfer move_files f src tf of
           Inl err \<Rightarrow> Some (Inl err, f)
         | Inr f' \<Rightarrow>
             (case handle_file_xmp f' src name k dir move_files of
                Inl err \<Rightarrow> Some (Inl err, f')
              | Inr f'' \<Rightarrow> Some (Inr (if move_files then Moved else Copied), f'')))) =
     Some y"
    assume nx: "\<not> endswith src ''.xmp''"
    show "(\<not> move_files \<longrightarrow> snd y src = f src)
         \<and> (move_files \<longrightarrow> fst y = Inr Moved \<longrightarrow> snd y src = None)"
    proof (cases "isfile f tf")
      case True
      with body IH nx show ?thesis
        by (auto split: sum.splits if_splits)
    next
      case False
      then have free: "f tf = None" by (simp add: isfile_def)
      show ?thesis
      proof (cases "transfer move_files f src tf")
        case (Inl err)
        with False body show ?thesis by auto
      next
        case (Inr f1)
        note t = transfer_source [OF Inr free]
        show ?thesis
        proof (cases "handle_file_xmp f1 src name k dir move_files")
          case (Inl err)
          with False Inr body t show ?thesis by auto
        next
          case f2: (Inr f2)
          from handle_file_xmp_source [OF f2 nx] t False Inr f2 body
          show ?thesis by auto
        qed
      qed
    qed
  qed
  with nx show ?thesis by simp
qed

section \<open>Facts about chains of candidates\<close>








section \<open>Further facts about the Date Resolver, the sidecars and the loop\<close>

lemma split_on_no_sep: "d \<notin> set s \<Longrightarrow> split_on d s = [s]"
  by (induction s) auto

lemma split_on_first:
  "d \<notin> set s \<Longrightarrow> split_on d (s @ d # r) = s # split_on d r"
  by (induction s) auto

text \<open>
  For every value with one dot, the sub-second fragment is all that follows the dot: an
  offset after the fraction is never removed.
\<close>

lemma date_from_exif_subseconds:
  assumes "CHR ''.'' \<notin> set d" and "CHR ''.'' \<notin> set r"
  shows "subseconds (date_from_exif (d @ ''.'' @ r)) = r"
proof -
  have "split_on CHR ''.'' (d @ ''.'' @ r) = [d, r]"
    using split_on_first [OF assms(1), of r] split_on_no_sep [OF assms(2)] by simp
  then show ?thesis by (simp add: date_from_exif_def Let_def)
qed

text \<open>
  The sidecar named after the whole source path gets the suffix after the name of the
  primary, whatever the suffix above 1 is.
\<close>

lemma xmp_plan_with_ext:
  assumes "isfile f (source_file @ ''.xmp'')" and "1 < suffix"
  shows "xmp_plan f source_file photo_name suffix
       = Some (source_file @ ''.xmp'', photo_name @ ''-'' @ dec suffix @ ''.xmp'')"
  using assms by (simp add: xmp_plan_def)

lemma xmp_plan_without_ext:
  assumes "\<not> isfile f (source_file @ ''.xmp'')"
    and "isfile f (fst (splitext source_file) @ ''.xmp'')" and "1 < suffix"
  shows "xmp_plan f source_file photo_name suffix
       = Some (fst (splitext source_file) @ ''.xmp'',
               fst (splitext photo_name) @ ''-'' @ dec suffix @ ''.xmp'')"
  using assms by (simp add: xmp_plan_def)

text \<open>
  In timestamp mode \<^verbatim>\<open>duplicate\<close> is only returned after the digests of the source and of a
  file at one of the tried paths were found equal, and the file system is left as it was.
\<close>

lemma place_loop_duplicate_sound:
  assumes run: "place_loop e move_files src tfp name dir k tf f = Some y"
    and dup: "fst y = Inr Duplicate"
  shows "snd y = f \<and> (\<exists>t c c'. (t = tf \<or> (\<exists>k'>k. t = suffixed tfp k'))
           \<and> f src = Some c \<and> f t = Some c' \<and> sha256 e c = sha256 e c')"
proof -
  let ?P = "\<lambda>(e :: env) (move_files :: bool) (src :: path) (tfp :: path) (name :: string)
              (dir :: path) (k :: nat) (tf :: path) (f :: fs) (y :: (py_error + status) \<times> fs).
      fst y = Inr Duplicate \<longrightarrow>
        snd y = f \<and> (\<exists>t c c'. (t = tf \<or> (\<exists>k'>k. t = suffixed tfp k'))
           \<and> f src = Some c \<and> f t = Some c' \<and> sha256 e c = sha256 e c')"
  have "?P e move_files src tfp name dir k tf f y"
  proof (rule place_loop.raw_induct [where P = ?P, OF _ run], intro impI)
    fix loop :: "env \<Rightarrow> bool \<Rightarrow> path \<Rightarrow> path \<Rightarrow> string \<Rightarrow> path \<Rightarrow> nat \<Rightarrow> path \<Rightarrow> fs
        \<Rightarrow> ((py_error + status) \<times> fs) option"
    fix e move_files src tfp name dir k tf f y
    assume IH: "\<And>e move_files src tfp name dir k tf f y.
        loop e move_files src tfp name dir k tf f = Some y \<Longrightarrow>
        fst y = Inr Duplicate \<longrightarrow>
        snd y = f \<and> (\<exists>t c c'. (t = tf \<or> (\<exists>k'>k. t = suffixed tfp k'))
           \<and> f src = Some c \<and> f t = Some c' \<and> sha256 e c = sha256 e c')"
    assume body: "(if isfile f tf then
        (case sha256_checksum e f src of
           Inl err \<Rightarrow> Some (Inl err, f)
         | Inr h1 \<Rightarrow>
             (case sha256_checksum e f tf of
                Inl err \<Rightarrow> Some (Inl err, f)
              | Inr h2 \<Rightarrow>
                  if h1 = h2 then Some (Inr Duplicate, f)
                  else loop e move_files src tfp name dir (k + 1) (suffixed tfp (k + 1)) f))
      else
        (case transfer move_files f src tf of
           Inl err \<Rightarrow> Some (Inl err, f)
         | Inr f' \<Rightarrow>
             (case handle_file_xmp f' src name k dir move_files of
                Inl err \<Rightarrow> Some (Inl err, f')
              | Inr f'' \<Rightarrow> Some (Inr (if move_files then Moved else Copied), f'')))) =
     Some y"
    assume dup: "fst y = Inr Duplicate"
    show "snd y = f \<and> (\<exists>t c c'. (t = tf \<or> (\<exists>k'>k. t = suffixed tfp k'))
           \<and> f src = Some c \<and> f t = Some c' \<and> sha256 e c = sha256 e c')"
    proof (cases "isfile f tf")
      case False
      with body dup show ?thesis by (auto split: sum.splits if_splits)
    next
      case True
      show ?thesis
      proof (cases "sha256_checksum e f src")
        case (Inl err)
        with True body dup show ?thesis by auto
      next
        case h1: (Inr h1)
        show ?thesis
        proof (cases "sha256_checksum e f tf")
          case (Inl err)
          with True h1 body dup show ?thesis by auto
        next
          case h2: (Inr h2)
          from h1 obtain c where c: "f src = Some c" "h1 = sha256 e c"
            by (auto simp: sha256_checksum_def split: option.splits)
          from h2 obtain c' where c': "f tf = Some c'" "h2 = sha256 e c'"
            by (auto simp: sha256_checksum_def split: option.splits)
          show ?thesis
          proof (cases "h1 = h2")
            case eq: True
            with True h1 h2 body have "y = (Inr Duplicate, f)" by simp
            with c c' eq show ?thesis by auto
          next
            case ne: False
            with True h1 h2 body
            have "loop e move_files src tfp name dir (k + 1) (suffixed tfp (k + 1)) f = Some y"
              by simp
            from IH [OF this] dup obtain t c c' where
              t: "t = suffixed tfp (k + 1) \<or> (\<exists>k'>k + 1. t = suffixed tfp k')"
              and r: "snd y = f" "f src = Some c" "f t = Some c'" "sha256 e c = sha256 e c'"
              by blast
            from t have "\<exists>k'>k. t = suffixed tfp k'"
              by (metis add_lessD1 less_add_one)
            with r show ?thesis by blast
          qed
        qed
      qed
    qed
  qed
  with dup show ?thesis by simp
qed

lemma handle_file_duplicate_sound:
  assumes "handle_file e source_file outputdir dir_format move_files date_regex f
             = Some (Inr Duplicate, f')"
  shows "f' = f \<and> (\<exists>output_dir target_file_name k c c'.
           target_plan e source_file outputdir dir_format date_regex
             = Inr (output_dir, target_file_name)
         \<and> 1 \<le> k \<and> f source_file = Some c
         \<and> f (candidate (join ''/'' [output_dir, target_file_name]) k) = Some c'
         \<and> sha256 e c = sha256 e c')"
proof -
  from assms have nx: "\<not> endswith source_file ''.xmp''"
    by (auto simp: handle_file_def split: if_splits)
  with assms obtain output_dir target_file_name where
    tp: "target_plan e source_file outputdir dir_format date_regex
           = Inr (output_dir, target_file_name)"
    by (cases "target_plan e source_file outputdir dir_format date_regex")
       (auto simp: handle_file_def)
  let ?tfp = "join ''/'' [output_dir, target_file_name]"
  from assms nx tp have
    "place_loop e move_files source_file ?tfp target_file_name output_dir 1 ?tfp f
       = Some (Inr Duplicate, f')"
    by (simp add: handle_file_def Let_def)
  from place_loop_duplicate_sound [OF this] obtain t c c' where
    f: "f' = f" and t: "t = ?tfp \<or> (\<exists>k'>1. t = suffixed ?tfp k')"
    and r: "f source_file = Some c" "f t = Some c'" "sha256 e c = sha256 e c'"
    by auto
  from t obtain k where "1 \<le> k" "t = candidate ?tfp k"
  proof
    assume "t = ?tfp"
    then have "1 \<le> (1::nat)" "t = candidate ?tfp 1" by (simp_all add: candidate_def)
    then show ?thesis by (rule that)
  next
    assume "\<exists>k'>1. t = suffixed ?tfp k'"
    then obtain k' where "1 < k'" "t = suffixed ?tfp k'" by blast
    then have "1 \<le> k'" "t = candidate ?tfp k'" by (simp_all add: candidate_def)
    then show ?thesis by (rule that)
  qed
  with f r tp show ?thesis by blast
qed

text \<open>
  On a file system with finitely many files the loop ends: some candidate is free.
\<close>

lemma free_candidate:
  assumes "finite (dom f)" and "1 \<le> k"
  shows "\<exists>k0\<ge>k. f (candidate tfp k0) = None"
proof (rule ccontr)
  assume "\<not> (\<exists>k0\<ge>k. f (candidate tfp k0) = None)"
  then have sub: "candidate tfp ` {k..} \<subseteq> dom f" by (auto simp: dom_def)
  have "inj_on (candidate tfp) {k..}"
    using assms(2) by (auto simp: inj_on_def intro!: candidate_inj)
  moreover have "infinite {k..}" by (simp add: infinite_Ici)
  ultimately have "infinite (candidate tfp ` {k..})" by (simp add: finite_image_iff)
  with sub assms(1) show False using finite_subset by blast
qed

lemma place_loop_returns:
  assumes "f (candidate tfp k0) = None" and "1 \<le> k" and "k \<le> k0"
  shows "\<exists>y. place_loop e move_files src tfp name dir k (candidate tfp k) f = Some y"
  using assms(2,3)
proof (induction "k0 - k" arbitrary: k)
  case 0
  then have "k = k0" by simp
  with assms(1) have "f (candidate tfp k) = None" by simp
  then show ?case
    by (simp add: place_loop_free split: sum.splits)
next
  case (Suc n)
  show ?case
  proof (cases "f (candidate tfp k)")
    case None
    then show ?thesis by (simp add: place_loop_free split: sum.splits)
  next
    case (Some c')
    show ?thesis
    proof (cases "f src")
      case None
      with Some show ?thesis
        by (subst place_loop.simps) (simp add: isfile_def sha256_checksum_def)
    next
      case c: (Some c)
      show ?thesis
      proof (cases "sha256 e c = sha256 e c'")
        case True
        with Some c show ?thesis by (simp add: place_loop_duplicate)
      next
        case False
        have "place_loop e move_files src tfp name dir k (candidate tfp k) f
            = place_loop e move_files src tfp name dir (k + 1) (candidate tfp (k + 1)) f"
          using place_loop_next [OF Some c False] candidate_Suc [OF Suc.prems(1)] by simp
        moreover from Suc have "n = k0 - (k + 1)" "1 \<le> k + 1" "k + 1 \<le> k0" by simp_all
        then have "\<exists>y. place_loop e move_files src tfp name dir (k + 1)
            (candidate tfp (k + 1)) f = Some y"
          by (rule Suc.hyps(1))
        ultimately show ?thesis by simp
      qed
    qed
  qed
qed

lemma handle_file_returns:
  assumes "finite (dom f)"
  shows "\<exists>y. handle_file e source_file outputdir dir_format move_files date_regex f = Some y"
proof (cases "endswith source_file ''.xmp''")
  case True
  then show ?thesis by (simp add: handle_file_def)
next
  case False
  show ?thesis
  proof (cases "target_plan e source_file outputdir dir_format date_regex")
    case (Inl err)
    with False show ?thesis by (simp add: handle_file_def)
  next
    case (Inr p)
    obtain dir name where p: "p = (dir, name)" by (cases p)
    from free_candidate [OF assms, of 1 "join ''/'' [dir, name]"]
    obtain k0 where "1 \<le> k0" "f (candidate (join ''/'' [dir, name]) k0) = None" by blast
    then have "\<exists>y. place_loop e move_files source_file (join ''/'' [dir, name]) name dir 1
        (candidate (join ''/'' [dir, name]) 1) f = Some y"
      using place_loop_returns [of f "join ''/'' [dir, name]" k0 1] by simp
    with False Inr p show ?thesis by (simp add: handle_file_def Let_def candidate_def)
  qed
qed

lemma get_output_dir_absent:
  "(case r of None \<Rightarrow> True | Some x \<Rightarrow> date x = None) \<Longrightarrow>
     get_output_dir e r outputdir dir_format = get_output_dir e None outputdir dir_format"
  by (cases r) (simp_all add: get_output_dir_def)

text \<open>
  In digest-rename mode a file that is not an image or a video is a \<^verbatim>\<open>duplicate\<close> as soon
  as a file of its base name is in the \<^verbatim>\<open>unknown\<close> directory, whatever that file holds.
\<close>

lemma handle_file2_other_duplicate:
  assumes "is_image_or_video (exif e source_file) = Inr False"
    and "f source_file = Some c"
    and "f (join ''/'' [get_output_dir e None outputdir dir_format, basename source_file]) = Some c'"
  shows "handle_file2 e source_file outputdir dir_format move_files date_regex f
       = (Inr Duplicate, f)"
  using assms by (simp add: handle_file2_def target_plan2_def sha256_checksum_def isfile_def)

text \<open>The two ways to a dated name, on the example environment.\<close>

lemma dated_name_examples:
  "target_plan ex_env ''in/IMG_20160915_123456.JPG'' ''out'' ''%Y/%m/%d'' None
     = Inr (''out/2016/09/15'', ''20160915-123456.jpg'')"
  "target_plan ex_env ''in/b.JPG'' ''out/'' ''%Y/%m/%d'' None
     = Inr (''out/2021/05/04'', ''20210504-101112.jpg'')"
  "get_date ''in/b.JPG'' [(''Create Date'', ''2021-05-04 10:11:12-02:00'')] None False
     = Inr (Some \<lparr>date = Some \<lparr>year = 2021, month = 5, day = 4,
                                hour = 10, minute = 11, second = 12\<rparr>,
                   subseconds = []\<rparr>)"
  by code_simp+

section \<open>Claims\<close>

subsection \<open>C1\<close>

text \<open>
  C1 (the code departs from it). For the metadata value
  \<^verbatim>\<open>2021:05:04 10:11:12.500+02:00\<close> the Date Resolver returns the date-time
  2021-05-04 10:11:12, but the sub-second fragment is \<^verbatim>\<open>500+02:00\<close>: the offset is only
  looked for in the part before the dot.
\<close>

theorem get_date_offset_stays_in_subseconds:
  "get_date ''in/a.jpg'' [(''Create Date'', ''2021:05:04 10:11:12.500+02:00'')] None False
     = Inr (Some \<lparr>date = Some \<lparr>year = 2021, month = 5, day = 4,
                                hour = 10, minute = 11, second = 12\<rparr>,
                   subseconds = ''500+02:00''\<rparr>)"
  by code_simp

subsection \<open>C2\<close>

text \<open>
  C2 (amended). In timestamp mode, for an image-or-video file whose date-time could not be
  resolved, \<^verbatim>\<open>get_file_name\<close> returns the original base name unchanged, and \<^verbatim>\<open>handle_file\<close>
  lower-cases what it returns: the target file name is the lower-cased base name, in the
  \<^verbatim>\<open>unknown\<close> directory.
\<close>

theorem unresolved_media_name_is_lowercased:
  assumes "exif e source_file = Some d"
    and "is_image_or_video (Some d) = Inr True"
    and "get_date source_file d date_regex False = Inr r"
    and "case r of None \<Rightarrow> True | Some x \<Rightarrow> date x = None"
  shows "get_file_name source_file r = basename source_file
       \<and> target_plan e source_file outputdir dir_format date_regex
           = Inr (get_output_dir e None outputdir dir_format, lower (basename source_file))"
proof -
  from assms(4) have n: "get_file_name source_file r = basename source_file"
    by (cases r) (simp_all add: get_file_name_def)
  from assms(1) have "d \<noteq> []" by (rule exif_nonempty)
  with assms(1,2,3) n get_output_dir_absent [OF assms(4)]
  have "target_plan e source_file outputdir dir_format date_regex
           = Inr (get_output_dir e None outputdir dir_format, lower (basename source_file))"
    by (simp add: target_plan_def)
  with n show ?thesis by simp
qed

theorem unresolved_media_name_is_lowercased_witness:
  "get_file_name ''in/IMG.JPG'' None = ''IMG.JPG''
   \<and> target_plan ex_env ''in/IMG.JPG'' ''out'' ''%Y/%m/%d'' None = Inr (''out/unknown'', ''img.jpg'')"
proof -
  have 1: "exif ex_env ''in/IMG.JPG'' = Some [(''MIME Type'', ''image/jpeg''), (''File Name'', ''IMG.JPG'')]"
    by code_simp
  have 2: "is_image_or_video (Some [(''MIME Type'', ''image/jpeg''), (''File Name'', ''IMG.JPG'')]) = Inr True"
    by code_simp
  have 3: "get_date ''in/IMG.JPG'' [(''MIME Type'', ''image/jpeg''), (''File Name'', ''IMG.JPG'')] None False = Inr None"
    by code_simp
  have 4: "case None :: resolved option of None \<Rightarrow> True | Some x \<Rightarrow> date x = None"
    by simp
  have 5: "basename ''in/IMG.JPG'' = ''IMG.JPG''" by code_simp
  have 6: "lower ''IMG.JPG'' = ''img.jpg''" by code_simp
  have 7: "get_output_dir ex_env None ''out'' ''%Y/%m/%d'' = ''out/unknown''" by code_simp
  show ?thesis
    using unresolved_media_name_is_lowercased [OF 1 2 3 4, of "''out''" "''%Y/%m/%d''"]
    unfolding 5 6 7 .
qed

text \<open>
  C2 as stated fails: the image \<^verbatim>\<open>in/IMG.JPG\<close> has no date, its base name is
  \<^verbatim>\<open>IMG.JPG\<close>, and it is copied to \<^verbatim>\<open>out/unknown/img.jpg\<close>.
\<close>

theorem unresolved_media_name_counterexample:
  "is_image_or_video (exif ex_env ''in/IMG.JPG'') = Inr True
   \<and> get_date ''in/IMG.JPG'' [(''MIME Type'', ''image/jpeg''), (''File Name'', ''IMG.JPG'')] None False = Inr None
   \<and> basename ''in/IMG.JPG'' = ''IMG.JPG''
   \<and> target_plan ex_env ''in/IMG.JPG'' ''out'' ''%Y/%m/%d'' None = Inr (''out/unknown'', ''img.jpg'')
   \<and> map_option (\<lambda>(r, f'). (r, f' ''out/unknown/IMG.JPG'', f' ''out/unknown/img.jpg''))
       (handle_file ex_env ''in/IMG.JPG'' ''out'' ''%Y/%m/%d'' False None [''in/IMG.JPG'' \<mapsto> ''abc''])
     = Some (Inr Copied, None, Some ''abc'')"
  by code_simp

subsection \<open>C3\<close>

text \<open>
  C3 (the code departs from it). In digest-rename mode a file that is not an image or a
  video keeps its base name, and \<^verbatim>\<open>handle_file2\<close> reports \<^verbatim>\<open>duplicate\<close> as soon as a file
  of that name is in the \<^verbatim>\<open>unknown\<close> directory: here, for the text file
  \<^verbatim>\<open>in2/notes.txt\<close>, the two contents, and their digests, differ.
\<close>

theorem digest_mode_duplicate_by_name_only:
  "fst (handle_file2 ex_env ''in2/notes.txt'' ''out'' ''%Y/%m/%d'' False None
          [''in2/notes.txt'' \<mapsto> ''B'', ''out/unknown/notes.txt'' \<mapsto> ''A'']) = Inr Duplicate
   \<and> sha256_checksum ex_env [''in2/notes.txt'' \<mapsto> ''B'', ''out/unknown/notes.txt'' \<mapsto> ''A'']
        ''in2/notes.txt'' = Inr ''B''
   \<and> sha256_checksum ex_env [''in2/notes.txt'' \<mapsto> ''B'', ''out/unknown/notes.txt'' \<mapsto> ''A'']
        ''out/unknown/notes.txt'' = Inr ''A''"
  by code_simp

subsection \<open>C4\<close>



subsection \<open>C5\<close>

text \<open>
  C5 (the code departs from it). The primary \<^verbatim>\<open>in2/photo.jpg\<close> is placed with suffix 2 as
  \<^verbatim>\<open>photo-2.jpg\<close>; its sidecar \<^verbatim>\<open>in2/photo.jpg.xmp\<close> is relocated as
  \<^verbatim>\<open>photo.jpg-2.xmp\<close>, with the suffix after the primary's extension, and no
  \<^verbatim>\<open>photo-2.jpg.xmp\<close> is written.
\<close>

theorem sidecar_suffix_after_extension:
  "map_option (\<lambda>(r, f'). (r, f' ''out/unknown/photo-2.jpg'', f' ''out/unknown/photo.jpg-2.xmp'',
                            f' ''out/unknown/photo-2.jpg.xmp''))
     (handle_file ex_env ''in2/photo.jpg'' ''out'' ''%Y/%m/%d'' False None
        [''in2/photo.jpg'' \<mapsto> ''B'', ''in2/photo.jpg.xmp'' \<mapsto> ''X'',
         ''out/unknown/photo.jpg'' \<mapsto> ''A''])
   = Some (Inr Copied, Some ''B'', Some ''X'', None)"
  by code_simp

subsection \<open>C6\<close>

text \<open>
  C6. Whatever a call in copy mode returns, the file at the source path is the one that was
  there before, in both handlers; and after a call in move mode that returns \<^verbatim>\<open>moved\<close> no
  file is left at the source path.
\<close>

theorem source_kept_or_removed:
  "(handle_file e source_file outputdir dir_format False date_regex f = Some (r, f')
      \<longrightarrow> f' source_file = f source_file)
   \<and> (handle_file2 e source_file outputdir dir_format False date_regex f = (r, f')
      \<longrightarrow> f' source_file = f source_file)
   \<and> (handle_file e source_file outputdir dir_format True date_regex f = Some (Inr Moved, f')
      \<longrightarrow> f' source_file = None)
   \<and> (handle_file2 e source_file outputdir dir_format True date_regex f = (Inr Moved, f')
      \<longrightarrow> f' source_file = None)"
proof (intro conjI impI)
  assume a: "handle_file e source_file outputdir dir_format False date_regex f = Some (r, f')"
  show "f' source_file = f source_file"
  proof (cases "endswith source_file ''.xmp''")
    case True
    with a show ?thesis by (simp add: handle_file_def)
  next
    case False
    show ?thesis
    proof (cases "target_plan e source_file outputdir dir_format date_regex")
      case (Inl err)
      with a False show ?thesis by (simp add: handle_file_def)
    next
      case (Inr p)
      obtain dir name where p: "p = (dir, name)" by (cases p)
      from a False Inr p have "place_loop e False source_file (join ''/'' [dir, name]) name dir 1
          (join ''/'' [dir, name]) f = Some (r, f')"
        by (simp add: handle_file_def Let_def)
      from place_loop_source [OF this False] show ?thesis by simp
    qed
  qed
next
  assume a: "handle_file2 e source_file outputdir dir_format False date_regex f = (r, f')"
  then show "f' source_file = f source_file"
    by (auto simp: handle_file2_def split: sum.splits if_splits dest: transfer_source simp: isfile_def)
next
  assume a: "handle_file e source_file outputdir dir_format True date_regex f = Some (Inr Moved, f')"
  show "f' source_file = None"
  proof (cases "endswith source_file ''.xmp''")
    case True
    with a show ?thesis by (simp add: handle_file_def)
  next
    case False
    show ?thesis
    proof (cases "target_plan e source_file outputdir dir_format date_regex")
      case (Inl err)
      with a False show ?thesis by (simp add: handle_file_def)
    next
      case (Inr p)
      obtain dir name where p: "p = (dir, name)" by (cases p)
      from a False Inr p have "place_loop e True source_file (join ''/'' [dir, name]) name dir 1
          (join ''/'' [dir, name]) f = Some (Inr Moved, f')"
        by (simp add: handle_file_def Let_def)
      from place_loop_source [OF this False] show ?thesis by simp
    qed
  qed
next
  assume a: "handle_file2 e source_file outputdir dir_format True date_regex f = (Inr Moved, f')"
  then show "f' source_file = None"
    by (auto simp: handle_file2_def split: sum.splits if_splits dest: transfer_source simp: isfile_def)
qed

theorem source_kept_or_removed_witness:
  "handle_file ex_env ''in/IMG.JPG'' ''out'' ''%Y/%m/%d'' False None [''in/IMG.JPG'' \<mapsto> ''abc'']
     = Some (Inr Copied, [''in/IMG.JPG'' \<mapsto> ''abc'', ''out/unknown/img.jpg'' \<mapsto> ''abc''])
   \<and> [''in/IMG.JPG'' \<mapsto> ''abc'', ''out/unknown/img.jpg'' \<mapsto> ''abc''] ''in/IMG.JPG''
       = [''in/IMG.JPG'' \<mapsto> ''abc''] ''in/IMG.JPG''
   \<and> handle_file2 ex_env ''in/IMG.JPG'' ''out'' ''%Y/%m/%d'' False None [''in/IMG.JPG'' \<mapsto> ''abc'']
     = (Inr Copied, [''in/IMG.JPG'' \<mapsto> ''abc'', ''out/unknown/abc.JPG'' \<mapsto> ''abc''])
   \<and> [''in/IMG.JPG'' \<mapsto> ''abc'', ''out/unknown/abc.JPG'' \<mapsto> ''abc''] ''in/IMG.JPG''
       = [''in/IMG.JPG'' \<mapsto> ''abc''] ''in/IMG.JPG''
   \<and> handle_file ex_env ''in/IMG.JPG'' ''out'' ''%Y/%m/%d'' True None [''in/IMG.JPG'' \<mapsto> ''abc'']
     = Some (Inr Moved, ([''in/IMG.JPG'' \<mapsto> ''abc''](''in/IMG.JPG'' := None))
                          (''out/unknown/img.jpg'' \<mapsto> ''abc''))
   \<and> (([''in/IMG.JPG'' \<mapsto> ''abc''](''in/IMG.JPG'' := None))
          (''out/unknown/img.jpg'' \<mapsto> ''abc'')) ''in/IMG.JPG'' = None
   \<and> handle_file2 ex_env ''in/IMG.JPG'' ''out'' ''%Y/%m/%d'' True None [''in/IMG.JPG'' \<mapsto> ''abc'']
     = (Inr Moved, ([''in/IMG.JPG'' \<mapsto> ''abc''](''in/IMG.JPG'' := None))
                          (''out/unknown/abc.JPG'' \<mapsto> ''abc''))
   \<and> (([''in/IMG.JPG'' \<mapsto> ''abc''](''in/IMG.JPG'' := None))
          (''out/unknown/abc.JPG'' \<mapsto> ''abc'')) ''in/IMG.JPG'' = None"
proof -
  have tp: "target_plan ex_env ''in/IMG.JPG'' ''out'' ''%Y/%m/%d'' None
      = Inr (''out/unknown'', ''img.jpg'')"
    by code_simp
  have tp2: "target_plan2 ex_env ''in/IMG.JPG'' ''out'' ''%Y/%m/%d'' None ''abc''
      = Inr ''out/unknown/abc.JPG''"
    by code_simp
  have sx: "splitext ''in/IMG.JPG'' = (''in/IMG'', ''.JPG'')"
    by code_simp
  have nx: "\<not> endswith ''in/IMG.JPG'' ''.xmp''"
    by code_simp
  have sha: "sha256 ex_env ''abc'' = ''abc''"
    by (simp add: ex_env_def)
  have 1: "handle_file ex_env ''in/IMG.JPG'' ''out'' ''%Y/%m/%d'' False None [''in/IMG.JPG'' \<mapsto> ''abc'']
     = Some (Inr Copied, [''in/IMG.JPG'' \<mapsto> ''abc'', ''out/unknown/img.jpg'' \<mapsto> ''abc''])"
    by (simp add: handle_file_def nx tp place_loop_free transfer_def copy2_def
        handle_file_xmp_def xmp_plan_def sx isfile_def)
  have 2: "handle_file2 ex_env ''in/IMG.JPG'' ''out'' ''%Y/%m/%d'' False None [''in/IMG.JPG'' \<mapsto> ''abc'']
     = (Inr Copied, [''in/IMG.JPG'' \<mapsto> ''abc'', ''out/unknown/abc.JPG'' \<mapsto> ''abc''])"
    by (simp add: handle_file2_def sha256_checksum_def sha tp2 transfer_def copy2_def isfile_def)
  have 3: "handle_file ex_env ''in/IMG.JPG'' ''out'' ''%Y/%m/%d'' True None [''in/IMG.JPG'' \<mapsto> ''abc'']
     = Some (Inr Moved, ([''in/IMG.JPG'' \<mapsto> ''abc''](''in/IMG.JPG'' := None))
                          (''out/unknown/img.jpg'' \<mapsto> ''abc''))"
    by (simp add: handle_file_def nx tp place_loop_free transfer_def move_def
        handle_file_xmp_def xmp_plan_def sx isfile_def)
  have 4: "handle_file2 ex_env ''in/IMG.JPG'' ''out'' ''%Y/%m/%d'' True None [''in/IMG.JPG'' \<mapsto> ''abc'']
     = (Inr Moved, ([''in/IMG.JPG'' \<mapsto> ''abc''](''in/IMG.JPG'' := None))
                          (''out/unknown/abc.JPG'' \<mapsto> ''abc''))"
    by (simp add: handle_file2_def sha256_checksum_def sha tp2 transfer_def move_def isfile_def)
  note inst = source_kept_or_removed [of ex_env "''in/IMG.JPG''" "''out''" "''%Y/%m/%d''" None
      "[''in/IMG.JPG'' \<mapsto> ''abc'']"]
  show ?thesis
    by (intro conjI 1 2 3 4 inst [THEN conjunct1, rule_format, OF 1]
        inst [THEN conjunct2, THEN conjunct1, rule_format, OF 2]
        inst [THEN conjunct2, THEN conjunct2, THEN conjunct1, rule_format, OF 3]
        inst [THEN conjunct2, THEN conjunct2, THEN conjunct2, rule_format, OF 4])
qed

subsection \<open>C7\<close>

text \<open>
  C7 (amended). In timestamp mode a file whose path ends with \<^verbatim>\<open>.xmp\<close> is classified
  \<^verbatim>\<open>other\<close> at once: no metadata is extracted, no date is resolved, and nothing is copied
  or moved, so the file system is left as it was.
\<close>

theorem xmp_source_is_skipped:
  "endswith source_file ''.xmp'' \<Longrightarrow>
     handle_file e source_file outputdir dir_format move_files date_regex f = Some (Inr Other, f)"
  by (simp add: handle_file_def)

theorem xmp_source_is_skipped_witness:
  "handle_file ex_env ''in/pic.xmp'' ''out'' ''%Y/%m/%d'' False None [''in/pic.xmp'' \<mapsto> ''<x/>'']
     = Some (Inr Other, [''in/pic.xmp'' \<mapsto> ''<x/>''])"
  by (rule xmp_source_is_skipped) (simp add: endswith_def)

text \<open>
  C7 as stated fails: after the sidecar \<^verbatim>\<open>in/pic.xmp\<close> has been handled, the \<^verbatim>\<open>unknown\<close>
  bucket holds no file of its name.
\<close>

theorem xmp_source_not_placed_counterexample:
  "map_option (\<lambda>(r, f'). (r, f' ''out/unknown/pic.xmp''))
     (handle_file ex_env ''in/pic.xmp'' ''out'' ''%Y/%m/%d'' False None
        [''in/pic.xmp'' \<mapsto> ''<x/>''])
   = Some (Inr Other, None)"
  by (simp add: handle_file_def endswith_def)

subsection \<open>C8\<close>



subsection \<open>C9\<close>

text \<open>
  C9. In copy mode, when the source is placed again while the candidates \<open>1, \<dots>, k\<close> of its
  computed target path are files and candidate \<open>k\<close> holds its content (a file with the
  digest of the source), the call returns \<^verbatim>\<open>duplicate\<close> and leaves the file system as it
  is: no file is created.
\<close>

theorem placing_again_is_duplicate:
  assumes "\<not> endswith source_file ''.xmp''"
    and "target_plan e source_file outputdir dir_format date_regex
           = Inr (output_dir, target_file_name)"
    and "f source_file = Some c"
    and "1 \<le> k"
    and "\<forall>j. 1 \<le> j \<and> j \<le> k \<longrightarrow> isfile f (candidate (join ''/'' [output_dir, target_file_name]) j)"
    and "f (candidate (join ''/'' [output_dir, target_file_name]) k) = Some c'"
    and "sha256 e c' = sha256 e c"
  shows "handle_file e source_file outputdir dir_format False date_regex f
           = Some (Inr Duplicate, f)"
proof -
  have "place_loop e False source_file (join ''/'' [output_dir, target_file_name])
          target_file_name output_dir 1 (candidate (join ''/'' [output_dir, target_file_name]) 1) f
        = Some (Inr Duplicate, f)"
    using assms(3) assms(5) assms(6) assms(7) _ assms(4)
    by (rule place_loop_finds_duplicate) simp
  with assms(1,2) show ?thesis
    by (simp add: handle_file_def candidate_def Let_def)
qed

theorem placing_again_is_duplicate_witness:
  "handle_file ex_env ''in/IMG.JPG'' ''out'' ''%Y/%m/%d'' False None
     [''in/IMG.JPG'' \<mapsto> ''abc'', ''out/unknown/img.jpg'' \<mapsto> ''zzz'',
      ''out/unknown/img-2.jpg'' \<mapsto> ''abc'']
   = Some (Inr Duplicate,
     [''in/IMG.JPG'' \<mapsto> ''abc'', ''out/unknown/img.jpg'' \<mapsto> ''zzz'',
      ''out/unknown/img-2.jpg'' \<mapsto> ''abc''])"
proof -
  let ?f = "[''in/IMG.JPG'' \<mapsto> ''abc'', ''out/unknown/img.jpg'' \<mapsto> ''zzz'',
      ''out/unknown/img-2.jpg'' \<mapsto> ''abc'']"
  have 1: "\<not> endswith ''in/IMG.JPG'' ''.xmp''"
    by code_simp
  have 2: "target_plan ex_env ''in/IMG.JPG'' ''out'' ''%Y/%m/%d'' None
      = Inr (''out/unknown'', ''img.jpg'')"
    by code_simp
  have c1: "candidate (join ''/'' [''out/unknown'', ''img.jpg'']) 1 = ''out/unknown/img.jpg''"
    by code_simp
  have c2: "candidate (join ''/'' [''out/unknown'', ''img.jpg'']) 2 = ''out/unknown/img-2.jpg''"
    by code_simp
  have 3: "?f ''in/IMG.JPG'' = Some ''abc''"
    by simp
  have 4: "(1::nat) \<le> 2"
    by simp
  have 5: "\<forall>j. 1 \<le> j \<and> j \<le> 2 \<longrightarrow> isfile ?f (candidate (join ''/'' [''out/unknown'', ''img.jpg'']) j)"
  proof (intro allI impI)
    fix j :: nat
    assume "1 \<le> j \<and> j \<le> 2"
    then have "j = 1 \<or> j = 2" by auto
    then show "isfile ?f (candidate (join ''/'' [''out/unknown'', ''img.jpg'']) j)"
      using c1 c2 by (auto simp: isfile_def)
  qed
  have 6: "?f (candidate (join ''/'' [''out/unknown'', ''img.jpg'']) 2) = Some ''abc''"
    unfolding c2 by simp
  have 7: "sha256 ex_env ''abc'' = sha256 ex_env ''abc''"
    by simp
  show ?thesis
    by (rule placing_again_is_duplicate [OF 1 2 3 4 5 6 7])
qed

subsection \<open>C10\<close>

text \<open>
  C10. When the metadata of a file was extracted and has no \<^verbatim>\<open>MIME Type\<close> key, the
  classification raises \<^verbatim>\<open>KeyError\<close>; \<^verbatim>\<open>handle_file\<close> raises it for every path that does
  not end with \<^verbatim>\<open>.xmp\<close>, before anything is written, and the loop of \<^verbatim>\<open>main\<close> counts the
  file as \<^verbatim>\<open>error\<close>, in both modes.
\<close>

theorem missing_mime_type_is_error:
  assumes "exif e (path_join root filename) = Some d"
    and "map_of d ''MIME Type'' = None"
    and "\<not> endswith (path_join root filename) ''.xmp''"
    and "filename \<notin> set ignored_files"
  shows "is_image_or_video (Some d) = Inl KeyError
       \<and> handle_file e (path_join root filename) outputdir dir_format move_files date_regex
             (files st) = Some (Inl KeyError, files st)
       \<and> main_step e outputdir dir_format move_files date_regex sha_rename (root, filename) st
           = Some (st\<lparr>count := (count st)(Error := count st Error + 1),
                       error_list := error_list st @ [path_join root filename]\<rparr>)"
proof -
  from assms(1) have ne: "d \<noteq> []" by (rule exif_nonempty)
  with assms(2) have cls: "is_image_or_video (Some d) = Inl KeyError"
    by (simp add: is_image_or_video_def)
  with assms(1) ne have "target_plan e (path_join root filename) outputdir dir_format date_regex
      = Inl KeyError"
    by (simp add: target_plan_def)
  with assms(3) have hf: "handle_file e (path_join root filename) outputdir dir_format move_files
      date_regex (files st) = Some (Inl KeyError, files st)"
    by (simp add: handle_file_def)
  have "\<exists>err. handle_file2 e (path_join root filename) outputdir dir_format move_files
      date_regex (files st) = (Inl err, files st)"
    using cls assms(1)
    by (auto simp: handle_file2_def target_plan2_def split: sum.splits)
  then obtain err where hf2: "handle_file2 e (path_join root filename) outputdir dir_format
      move_files date_regex (files st) = (Inl err, files st)" ..
  have "main_step e outputdir dir_format move_files date_regex sha_rename (root, filename) st
      = Some (st\<lparr>count := (count st)(Error := count st Error + 1),
                  error_list := error_list st @ [path_join root filename]\<rparr>)"
    using assms(4) hf hf2 by (cases sha_rename) (simp_all add: main_step_def)
  with cls hf show ?thesis by simp
qed

theorem missing_mime_type_is_error_witness:
  "is_image_or_video (Some [(''File Name'', ''a.bin'')]) = Inl KeyError
   \<and> handle_file ex_env ''in/a.bin'' ''out'' ''%Y/%m/%d'' False None [''in/a.bin'' \<mapsto> ''xyz'']
       = Some (Inl KeyError, [''in/a.bin'' \<mapsto> ''xyz''])
   \<and> main_step ex_env ''out'' ''%Y/%m/%d'' False None False (''in'', ''a.bin'')
         \<lparr>count = (\<lambda>s. 0), error_list = [], files = [''in/a.bin'' \<mapsto> ''xyz'']\<rparr>
       = Some \<lparr>count = (\<lambda>s. 0)(Error := 1), error_list = [''in/a.bin''],
               files = [''in/a.bin'' \<mapsto> ''xyz'']\<rparr>"
proof -
  have pj: "path_join ''in'' ''a.bin'' = ''in/a.bin''"
    by code_simp
  have 1: "exif ex_env (path_join ''in'' ''a.bin'') = Some [(''File Name'', ''a.bin'')]"
    by code_simp
  have 2: "map_of [(''File Name'', ''a.bin'')] ''MIME Type'' = None"
    by simp
  have 3: "\<not> endswith (path_join ''in'' ''a.bin'') ''.xmp''"
    by code_simp
  have 4: "''a.bin'' \<notin> set ignored_files"
    by (simp add: ignored_files_def)
  from missing_mime_type_is_error [OF 1 2 3 4, of "''out''" "''%Y/%m/%d''" False None
      "\<lparr>count = (\<lambda>s. 0), error_list = [], files = [''in/a.bin'' \<mapsto> ''xyz'']\<rparr>" False]
  show ?thesis
    unfolding pj by simp
qed


end
